theory Spec2Isabelle
  imports Main "HOL-Library.Word"
begin

unbundle bit_operations_syntax

section \<open>Paths\<close>

text \<open>
  The class \<open>Path\<close> of \<open>filesystem.hpp\<close> has the single private member \<open>m_path\<close>.
  \<open>std::string\<close> is a sequence of bytes, here \<open>string\<close>. The backslash is written
  \<open>CHR 0x5C\<close>.
\<close>

record path =
  m_path :: string

abbreviation backslash :: char where
  "backslash \<equiv> CHR 0x5C"

text \<open>\<open>std::replace(first, last, old_value, new_value)\<close> on a string.\<close>

definition replace :: "char \<Rightarrow> char \<Rightarrow> string \<Rightarrow> string" where
  "replace old_value new_value s = map (\<lambda>c. if c = old_value then new_value else c) s"

text \<open>
  \<open>filesystem_unix.cpp\<close>, \<open>Path::Path\<close>: backslashes become forward slashes, then one
  trailing slash is popped when the string is longer than one character.
\<close>

definition unix_Path :: "string \<Rightarrow> path" where
  "unix_Path p =
     (let m = replace backslash (CHR ''/'') p
      in if length m > 1 \<and> last m = CHR ''/'' then \<lparr>m_path = butlast m\<rparr>
         else \<lparr>m_path = m\<rparr>)"

text \<open>\<open>filesystem_win.cpp\<close>, \<open>Path::Path\<close>: forward slashes become backslashes.\<close>

definition win_Path :: "string \<Rightarrow> path" where
  "win_Path p = \<lparr>m_path = replace (CHR ''/'') backslash p\<rparr>"

text \<open>\<open>Path::toString\<close>, the same on both hosts.\<close>

definition toString :: "path \<Rightarrow> string" where
  "toString p = m_path p"

text \<open>\<open>Path::separator\<close>.\<close>

definition unix_separator :: char where
  "unix_separator = CHR ''/''"

definition win_separator :: char where
  "win_separator = backslash"

text \<open>
  \<open>std::string::find_last_of(chars)\<close>: the index of the last character of the string that
  is one of \<open>chars\<close>; \<open>None\<close> stands for \<open>std::string::npos\<close>.
\<close>

fun find_last_of :: "string \<Rightarrow> string \<Rightarrow> nat option" where
  "find_last_of [] chars = None"
| "find_last_of (c # cs) chars =
     (case find_last_of cs chars of
        Some pos \<Rightarrow> Some (Suc pos)
      | None \<Rightarrow> if c \<in> set chars then Some 0 else None)"

text \<open>\<open>Path::parent\<close> of \<open>filesystem_unix.cpp\<close>; \<open>substr(0, pos)\<close> is \<open>take pos\<close>.\<close>

definition unix_parent :: "path \<Rightarrow> path" where
  "unix_parent p =
     (case find_last_of (m_path p) ''/'' of
        None \<Rightarrow> unix_Path ''.''
      | Some pos \<Rightarrow> if pos = 0 then unix_Path ''/'' else unix_Path (take pos (m_path p)))"

text \<open>\<open>Path::parent\<close> of \<open>filesystem_win.cpp\<close>: both separators are searched for.\<close>

definition win_parent :: "path \<Rightarrow> path" where
  "win_parent p =
     (case find_last_of (m_path p) [backslash, CHR ''/''] of
        None \<Rightarrow> win_Path ''''
      | Some pos \<Rightarrow> win_Path (take pos (m_path p)))"

text \<open>\<open>Path::filename\<close>; \<open>substr(pos + 1)\<close> is \<open>drop (pos + 1)\<close>.\<close>

definition unix_filename :: "path \<Rightarrow> string" where
  "unix_filename p =
     (case find_last_of (m_path p) ''/'' of
        None \<Rightarrow> m_path p
      | Some pos \<Rightarrow> drop (pos + 1) (m_path p))"

definition win_filename :: "path \<Rightarrow> string" where
  "win_filename p =
     (case find_last_of (m_path p) [backslash, CHR ''/''] of
        None \<Rightarrow> m_path p
      | Some pos \<Rightarrow> drop (pos + 1) (m_path p))"


section \<open>Errors and results\<close>

text \<open>
  \<open>FileSystemException\<close> carries its message. A call that can throw returns the
  exception or \<open>()\<close>, together with the host state it leaves behind.
\<close>

datatype error = FileSystemException string

type_synonym 's result = "(error + unit) \<times> 's"

type_synonym byte = "8 word"

section \<open>The POSIX host\<close>

text \<open>
  The calls \<open>filesystem_unix.cpp\<close> makes into the host are parameters of the model, over
  an arbitrary host state \<open>'s\<close>. A call that reports failure leaves the state as it was:
  \<^item> \<open>stat\<close>: \<open>None\<close> when \<open>stat\<close> returns non-zero, else \<open>st_mode\<close>;
  \<^item> \<open>rename\<close>, \<open>unlink\<close>, \<open>rmdir\<close>: \<open>None\<close> when the call returns non-zero;
  \<^item> \<open>mkdir\<close>: \<open>Inl errno\<close> when the call returns non-zero;
  \<^item> \<open>opendir\<close>: \<open>None\<close> when \<open>opendir\<close> returns null, else the \<open>d_name\<close> of the
    entries that the successive \<open>readdir\<close> calls return;
  \<^item> \<open>ifstream_open\<close>: whether the input stream opens; \<open>rdbuf\<close>: the bytes it yields;
  \<^item> \<open>ofstream_open\<close>: \<open>None\<close> when the output stream does not open, else the state
    with the file created or truncated; \<open>ofstream_write\<close>: the state after the bytes are
    written (the stream's state is never inspected by the code).
\<close>

type_synonym mode_t = "32 word"

record 's posix =
  stat :: "string \<Rightarrow> 's \<Rightarrow> mode_t option"
  rename :: "string \<Rightarrow> string \<Rightarrow> 's \<Rightarrow> 's option"
  unlink :: "string \<Rightarrow> 's \<Rightarrow> 's option"
  mkdir :: "string \<Rightarrow> mode_t \<Rightarrow> 's \<Rightarrow> int + 's"
  rmdir :: "string \<Rightarrow> 's \<Rightarrow> 's option"
  opendir :: "string \<Rightarrow> 's \<Rightarrow> string list option"
  ifstream_open :: "string \<Rightarrow> 's \<Rightarrow> bool"
  rdbuf :: "string \<Rightarrow> 's \<Rightarrow> byte list"
  ofstream_open :: "string \<Rightarrow> 's \<Rightarrow> 's option"
  ofstream_write :: "string \<Rightarrow> byte list \<Rightarrow> 's \<Rightarrow> 's"

text \<open>The file-type macros and \<open>EEXIST\<close> of the host's headers (octal 0170000, 0040000, 0100000).\<close>

definition S_IFMT :: mode_t where
  "S_IFMT = 0xF000"

definition S_IFDIR :: mode_t where
  "S_IFDIR = 0x4000"

definition S_IFREG :: mode_t where
  "S_IFREG = 0x8000"

definition S_ISDIR :: "mode_t \<Rightarrow> bool" where
  "S_ISDIR m = (m AND S_IFMT = S_IFDIR)"

definition S_ISREG :: "mode_t \<Rightarrow> bool" where
  "S_ISREG m = (m AND S_IFMT = S_IFREG)"

definition EEXIST :: int where
  "EEXIST = 17"

subsection \<open>Path queries\<close>

definition unix_exists :: "'s posix \<Rightarrow> path \<Rightarrow> 's \<Rightarrow> bool" where
  "unix_exists h p s = (stat h (m_path p) s \<noteq> None)"

definition unix_isDirectory :: "'s posix \<Rightarrow> path \<Rightarrow> 's \<Rightarrow> bool" where
  "unix_isDirectory h p s =
     (case stat h (m_path p) s of None \<Rightarrow> False | Some st_mode \<Rightarrow> S_ISDIR st_mode)"

definition unix_isFile :: "'s posix \<Rightarrow> path \<Rightarrow> 's \<Rightarrow> bool" where
  "unix_isFile h p s =
     (case stat h (m_path p) s of None \<Rightarrow> False | Some st_mode \<Rightarrow> S_ISREG st_mode)"

subsection \<open>File\<close>

text \<open>
  \<open>File\<close> and \<open>Directory\<close> hold one \<open>Path\<close> and nothing else, so a method of either takes
  the path as its receiver.
\<close>

definition unix_File_exists :: "'s posix \<Rightarrow> path \<Rightarrow> 's \<Rightarrow> bool" where
  "unix_File_exists h p s = (unix_exists h p s \<and> unix_isFile h p s)"

definition unix_File_copy :: "'s posix \<Rightarrow> path \<Rightarrow> path \<Rightarrow> 's \<Rightarrow> 's result" where
  "unix_File_copy h p destination s =
     (if \<not> ifstream_open h (toString p) s
      then (Inl (FileSystemException ''Could not open source file for copying''), s)
      else case ofstream_open h (toString destination) s of
        None \<Rightarrow> (Inl (FileSystemException ''Could not open destination file for copying''), s)
      | Some s1 \<Rightarrow>
          (Inr (), ofstream_write h (toString destination) (rdbuf h (toString p) s1) s1))"

definition unix_File_remove :: "'s posix \<Rightarrow> path \<Rightarrow> 's \<Rightarrow> 's result" where
  "unix_File_remove h p s =
     (case unlink h (toString p) s of
        None \<Rightarrow> (Inl (FileSystemException ''Could not delete file''), s)
      | Some s1 \<Rightarrow> (Inr (), s1))"

definition unix_File_move :: "'s posix \<Rightarrow> path \<Rightarrow> path \<Rightarrow> 's \<Rightarrow> 's result" where
  "unix_File_move h p destination s =
     (case rename h (toString p) (toString destination) s of
        Some s1 \<Rightarrow> (Inr (), s1)
      | None \<Rightarrow>
          (case unix_File_copy h p destination s of
             (Inl e, s1) \<Rightarrow> (Inl e, s1)
           | (Inr _, s1) \<Rightarrow> unix_File_remove h p s1))"

subsection \<open>Directory\<close>

definition unix_Directory_exists :: "'s posix \<Rightarrow> path \<Rightarrow> 's \<Rightarrow> bool" where
  "unix_Directory_exists h p s = (unix_exists h p s \<and> unix_isDirectory h p s)"

text \<open>\<open>Directory::create\<close>; the mode 0755 (octal) is \<open>0x1ED\<close>.\<close>

definition unix_Directory_create :: "'s posix \<Rightarrow> path \<Rightarrow> 's \<Rightarrow> 's result" where
  "unix_Directory_create h p s =
     (case mkdir h (toString p) 0x1ED s of
        Inr s1 \<Rightarrow> (Inr (), s1)
      | Inl errno \<Rightarrow>
          if errno \<noteq> EEXIST then (Inl (FileSystemException ''Could not create directory''), s)
          else (Inr (), s))"

text \<open>
  \<open>Directory::list\<close>. The \<open>while\<close> loop over the directory stream is \<open>unix_list_loop\<close>,
  with the vector \<open>result\<close> as accumulator. The function calls itself on every
  sub-directory, to a depth that the host decides: \<open>fuel\<close> bounds the depth of these nested
  calls, and \<open>None\<close> says that it did not suffice.
\<close>

fun unix_Directory_list :: "nat \<Rightarrow> 's posix \<Rightarrow> path \<Rightarrow> bool \<Rightarrow> 's \<Rightarrow> path list option"
  and unix_list_loop ::
    "nat \<Rightarrow> 's posix \<Rightarrow> path \<Rightarrow> bool \<Rightarrow> 's \<Rightarrow> string list \<Rightarrow> path list \<Rightarrow> path list option"
where
  "unix_Directory_list fuel h p recursive s =
     (case opendir h (toString p) s of
        None \<Rightarrow> Some []
      | Some names \<Rightarrow> unix_list_loop fuel h p recursive s names [])"
| "unix_list_loop fuel h p recursive s [] result = Some result"
| "unix_list_loop fuel h p recursive s (name # rest) result =
     (if name = ''.'' \<or> name = ''..'' then unix_list_loop fuel h p recursive s rest result
      else
        let fullPath = unix_Path (toString p @ ''/'' @ name);
            result1 = result @ [fullPath]
        in if recursive \<and> unix_isDirectory h fullPath s then
             (case fuel of
                0 \<Rightarrow> None
              | Suc n \<Rightarrow>
                  (case unix_Directory_list n h fullPath True s of
                     None \<Rightarrow> None
                   | Some subDirContents \<Rightarrow>
                       unix_list_loop fuel h p recursive s rest (result1 @ subDirContents)))
           else unix_list_loop fuel h p recursive s rest result1)"

text \<open>
  \<open>Directory::remove\<close>. The range-based \<open>for\<close> over \<open>contents\<close> is \<open>unix_remove_loop\<close>;
  an exception thrown for an entry leaves the loop and the function at once. Here too
  \<open>fuel\<close> bounds the depth of the nested calls; \<open>list(false)\<close> makes none and needs no
  fuel.
\<close>

fun unix_Directory_remove :: "nat \<Rightarrow> 's posix \<Rightarrow> path \<Rightarrow> bool \<Rightarrow> 's \<Rightarrow> 's result option"
  and unix_remove_loop :: "nat \<Rightarrow> 's posix \<Rightarrow> path list \<Rightarrow> 's \<Rightarrow> 's result option"
where
  "unix_Directory_remove fuel h p recursive s =
     (case (if recursive then
              (case unix_Directory_list 0 h p False s of
                 None \<Rightarrow> None
               | Some contents \<Rightarrow> unix_remove_loop fuel h contents s)
            else Some (Inr (), s)) of
        None \<Rightarrow> None
      | Some (Inl e, s1) \<Rightarrow> Some (Inl e, s1)
      | Some (Inr _, s1) \<Rightarrow>
          (case rmdir h (toString p) s1 of
             None \<Rightarrow> Some (Inl (FileSystemException ''Could not remove directory''), s1)
           | Some s2 \<Rightarrow> Some (Inr (), s2)))"
| "unix_remove_loop fuel h [] s = Some (Inr (), s)"
| "unix_remove_loop fuel h (entry # rest) s =
     (if unix_isDirectory h entry s then
        (case fuel of
           0 \<Rightarrow> None
         | Suc n \<Rightarrow>
             (case unix_Directory_remove n h entry True s of
                None \<Rightarrow> None
              | Some (Inl e, s1) \<Rightarrow> Some (Inl e, s1)
              | Some (Inr _, s1) \<Rightarrow> unix_remove_loop fuel h rest s1))
      else
        (case unix_File_remove h entry s of
           (Inl e, s1) \<Rightarrow> Some (Inl e, s1)
         | (Inr _, s1) \<Rightarrow> unix_remove_loop fuel h rest s1))"


section \<open>The Windows host\<close>

text \<open>
  The calls \<open>filesystem_win.cpp\<close> makes into the host, again over an arbitrary host state
  and with failure leaving the state as it was:
  \<^item> \<open>GetFileAttributesA\<close>: the attribute word, \<open>INVALID_FILE_ATTRIBUTES\<close> on failure;
  \<^item> \<open>CopyFileA\<close>, \<open>MoveFileA\<close>, \<open>DeleteFileA\<close>, \<open>RemoveDirectoryA\<close>: \<open>None\<close> when the
    call returns zero;
  \<^item> \<open>CreateDirectoryA\<close>: \<open>Inl\<close> of the value of \<open>GetLastError()\<close> when the call
    returns zero;
  \<^item> \<open>FindFirstFileA\<close>: \<open>None\<close> for \<open>INVALID_HANDLE_VALUE\<close>, else the \<open>cFileName\<close> and
    \<open>dwFileAttributes\<close> of the record it fills in and of those that the successive
    \<open>FindNextFileA\<close> calls fill in, until that returns zero.
\<close>

type_synonym DWORD = "32 word"

record 's win32 =
  GetFileAttributesA :: "string \<Rightarrow> 's \<Rightarrow> DWORD"
  CopyFileA :: "string \<Rightarrow> string \<Rightarrow> bool \<Rightarrow> 's \<Rightarrow> 's option"
  MoveFileA :: "string \<Rightarrow> string \<Rightarrow> 's \<Rightarrow> 's option"
  DeleteFileA :: "string \<Rightarrow> 's \<Rightarrow> 's option"
  CreateDirectoryA :: "string \<Rightarrow> 's \<Rightarrow> DWORD + 's"
  RemoveDirectoryA :: "string \<Rightarrow> 's \<Rightarrow> 's option"
  FindFirstFileA :: "string \<Rightarrow> 's \<Rightarrow> (string \<times> DWORD) list option"

text \<open>The constants of the host's headers.\<close>

definition INVALID_FILE_ATTRIBUTES :: DWORD where
  "INVALID_FILE_ATTRIBUTES = 0xFFFFFFFF"

definition FILE_ATTRIBUTE_DIRECTORY :: DWORD where
  "FILE_ATTRIBUTE_DIRECTORY = 0x10"

definition ERROR_ALREADY_EXISTS :: DWORD where
  "ERROR_ALREADY_EXISTS = 183"

subsection \<open>Path queries\<close>

definition win_exists :: "'s win32 \<Rightarrow> path \<Rightarrow> 's \<Rightarrow> bool" where
  "win_exists h p s = (GetFileAttributesA h (m_path p) s \<noteq> INVALID_FILE_ATTRIBUTES)"

definition win_isDirectory :: "'s win32 \<Rightarrow> path \<Rightarrow> 's \<Rightarrow> bool" where
  "win_isDirectory h p s =
     (let attr = GetFileAttributesA h (m_path p) s
      in attr \<noteq> INVALID_FILE_ATTRIBUTES \<and> attr AND FILE_ATTRIBUTE_DIRECTORY \<noteq> 0)"

definition win_isFile :: "'s win32 \<Rightarrow> path \<Rightarrow> 's \<Rightarrow> bool" where
  "win_isFile h p s =
     (let attr = GetFileAttributesA h (m_path p) s
      in attr \<noteq> INVALID_FILE_ATTRIBUTES \<and> \<not> (attr AND FILE_ATTRIBUTE_DIRECTORY \<noteq> 0))"

subsection \<open>File\<close>

definition win_File_exists :: "'s win32 \<Rightarrow> path \<Rightarrow> 's \<Rightarrow> bool" where
  "win_File_exists h p s = (win_exists h p s \<and> win_isFile h p s)"

definition win_File_copy :: "'s win32 \<Rightarrow> path \<Rightarrow> path \<Rightarrow> 's \<Rightarrow> 's result" where
  "win_File_copy h p destination s =
     (case CopyFileA h (toString p) (toString destination) False s of
        None \<Rightarrow> (Inl (FileSystemException ''Could not copy file''), s)
      | Some s1 \<Rightarrow> (Inr (), s1))"

definition win_File_move :: "'s win32 \<Rightarrow> path \<Rightarrow> path \<Rightarrow> 's \<Rightarrow> 's result" where
  "win_File_move h p destination s =
     (case MoveFileA h (toString p) (toString destination) s of
        None \<Rightarrow> (Inl (FileSystemException ''Could not move file''), s)
      | Some s1 \<Rightarrow> (Inr (), s1))"

definition win_File_remove :: "'s win32 \<Rightarrow> path \<Rightarrow> 's \<Rightarrow> 's result" where
  "win_File_remove h p s =
     (case DeleteFileA h (toString p) s of
        None \<Rightarrow> (Inl (FileSystemException ''Could not delete file''), s)
      | Some s1 \<Rightarrow> (Inr (), s1))"

subsection \<open>Directory\<close>

definition win_Directory_exists :: "'s win32 \<Rightarrow> path \<Rightarrow> 's \<Rightarrow> bool" where
  "win_Directory_exists h p s = (win_exists h p s \<and> win_isDirectory h p s)"

definition win_Directory_create :: "'s win32 \<Rightarrow> path \<Rightarrow> 's \<Rightarrow> 's result" where
  "win_Directory_create h p s =
     (case CreateDirectoryA h (toString p) s of
        Inr s1 \<Rightarrow> (Inr (), s1)
      | Inl lastError \<Rightarrow>
          if lastError \<noteq> ERROR_ALREADY_EXISTS
          then (Inl (FileSystemException ''Could not create directory''), s)
          else (Inr (), s))"

text \<open>
  \<open>Directory::list\<close>. The \<open>do\<close>/\<open>while\<close> loop runs over the records of the enumeration;
  the recursion is decided by the attributes in the record, not by a second query.
\<close>

fun win_Directory_list :: "nat \<Rightarrow> 's win32 \<Rightarrow> path \<Rightarrow> bool \<Rightarrow> 's \<Rightarrow> path list option"
  and win_list_loop ::
    "nat \<Rightarrow> 's win32 \<Rightarrow> path \<Rightarrow> bool \<Rightarrow> 's \<Rightarrow> (string \<times> DWORD) list \<Rightarrow> path list
       \<Rightarrow> path list option"
where
  "win_Directory_list fuel h p recursive s =
     (case FindFirstFileA h (toString p @ [backslash, CHR ''*'']) s of
        None \<Rightarrow> Some []
      | Some findData \<Rightarrow> win_list_loop fuel h p recursive s findData [])"
| "win_list_loop fuel h p recursive s [] result = Some result"
| "win_list_loop fuel h p recursive s ((name, dwFileAttributes) # rest) result =
     (if name = ''.'' \<or> name = ''..'' then win_list_loop fuel h p recursive s rest result
      else
        let fullPath = win_Path (toString p @ [backslash] @ name);
            result1 = result @ [fullPath]
        in if recursive \<and> dwFileAttributes AND FILE_ATTRIBUTE_DIRECTORY \<noteq> 0 then
             (case fuel of
                0 \<Rightarrow> None
              | Suc n \<Rightarrow>
                  (case win_Directory_list n h fullPath True s of
                     None \<Rightarrow> None
                   | Some subDirContents \<Rightarrow>
                       win_list_loop fuel h p recursive s rest (result1 @ subDirContents)))
           else win_list_loop fuel h p recursive s rest result1)"

text \<open>\<open>Directory::remove\<close>, the same loop as on the POSIX host over the Windows calls.\<close>

fun win_Directory_remove :: "nat \<Rightarrow> 's win32 \<Rightarrow> path \<Rightarrow> bool \<Rightarrow> 's \<Rightarrow> 's result option"
  and win_remove_loop :: "nat \<Rightarrow> 's win32 \<Rightarrow> path list \<Rightarrow> 's \<Rightarrow> 's result option"
where
  "win_Directory_remove fuel h p recursive s =
     (case (if recursive then
              (case win_Directory_list 0 h p False s of
                 None \<Rightarrow> None
               | Some contents \<Rightarrow> win_remove_loop fuel h contents s)
            else Some (Inr (), s)) of
        None \<Rightarrow> None
      | Some (Inl e, s1) \<Rightarrow> Some (Inl e, s1)
      | Some (Inr _, s1) \<Rightarrow>
          (case RemoveDirectoryA h (toString p) s1 of
             None \<Rightarrow> Some (Inl (FileSystemException ''Could not remove directory''), s1)
           | Some s2 \<Rightarrow> Some (Inr (), s2)))"
| "win_remove_loop fuel h [] s = Some (Inr (), s)"
| "win_remove_loop fuel h (entry # rest) s =
     (if win_isDirectory h entry s then
        (case fuel of
           0 \<Rightarrow> None
         | Suc n \<Rightarrow>
             (case win_Directory_remove n h entry True s of
                None \<Rightarrow> None
              | Some (Inl e, s1) \<Rightarrow> Some (Inl e, s1)
              | Some (Inr _, s1) \<Rightarrow> win_remove_loop fuel h rest s1))
      else
        (case win_File_remove h entry s of
           (Inl e, s1) \<Rightarrow> Some (Inl e, s1)
         | (Inr _, s1) \<Rightarrow> win_remove_loop fuel h rest s1))"


section \<open>Two small hosts to run the model on\<close>

text \<open>
  An in-memory file system: the entries in creation order, each a full path name with a
  regular file's bytes or the mark of a directory. It instantiates both host interfaces,
  so that the functions above can be evaluated on concrete directory trees.
\<close>

datatype node = RegularFile "byte list" | Folder

type_synonym fs = "(string \<times> node) list"

definition fs_remove :: "string \<Rightarrow> fs \<Rightarrow> fs" where
  "fs_remove k s = filter (\<lambda>e. fst e \<noteq> k) s"

definition fs_put :: "string \<Rightarrow> node \<Rightarrow> fs \<Rightarrow> fs" where
  "fs_put k n s = (if map_of s k = None then s @ [(k, n)]
                   else map (\<lambda>e. if fst e = k then (k, n) else e) s)"

text \<open>The names directly below directory \<open>d\<close>, for the separator \<open>sep\<close>.\<close>

definition fs_children :: "char \<Rightarrow> string \<Rightarrow> fs \<Rightarrow> (string \<times> node) list" where
  "fs_children sep d s =
     map (\<lambda>e. (drop (length d + 1) (fst e), snd e))
       (filter (\<lambda>e. take (length d + 1) (fst e) = d @ [sep]
                    \<and> drop (length d + 1) (fst e) \<noteq> []
                    \<and> sep \<notin> set (drop (length d + 1) (fst e))) s)"

text \<open>Whether the directory that is to hold \<open>k\<close> is missing.\<close>

definition fs_orphan :: "char \<Rightarrow> string \<Rightarrow> fs \<Rightarrow> bool" where
  "fs_orphan sep k s =
     (case find_last_of k [sep] of
        None \<Rightarrow> False
      | Some pos \<Rightarrow> pos \<noteq> 0 \<and> map_of s (take pos k) \<noteq> Some Folder)"

text \<open>
  The POSIX instance. With \<open>xdev\<close> set every \<open>rename\<close> is refused, as it is between two
  devices. \<open>mkdir\<close> reports \<open>EEXIST\<close> (17) for a name in use and \<open>ENOENT\<close> (2) for a
  missing parent.
\<close>

definition mem_posix :: "bool \<Rightarrow> fs posix" where
  "mem_posix xdev =
     \<lparr> stat = (\<lambda>k s. case map_of s k of
                  None \<Rightarrow> None
                | Some (RegularFile _) \<Rightarrow> Some 0x81A4
                | Some Folder \<Rightarrow> Some 0x41ED),
       rename = (\<lambda>old new s.
                  if xdev then None
                  else case map_of s old of
                    None \<Rightarrow> None
                  | Some n \<Rightarrow> Some (fs_put new n (fs_remove old s))),
       unlink = (\<lambda>k s. case map_of s k of
                  Some (RegularFile _) \<Rightarrow> Some (fs_remove k s)
                | _ \<Rightarrow> None),
       mkdir = (\<lambda>k mode s. case map_of s k of
                  Some _ \<Rightarrow> Inl 17
                | None \<Rightarrow> if fs_orphan (CHR ''/'') k s then Inl 2 else Inr (s @ [(k, Folder)])),
       rmdir = (\<lambda>k s. case map_of s k of
                  Some Folder \<Rightarrow>
                    if fs_children (CHR ''/'') k s = [] then Some (fs_remove k s) else None
                | _ \<Rightarrow> None),
       opendir = (\<lambda>k s. case map_of s k of
                  Some Folder \<Rightarrow> Some (''.'' # ''..'' # map fst (fs_children (CHR ''/'') k s))
                | _ \<Rightarrow> None),
       ifstream_open = (\<lambda>k s. case map_of s k of
                  Some (RegularFile _) \<Rightarrow> True
                | _ \<Rightarrow> False),
       rdbuf = (\<lambda>k s. case map_of s k of
                  Some (RegularFile content) \<Rightarrow> content
                | _ \<Rightarrow> []),
       ofstream_open = (\<lambda>k s. case map_of s k of
                  Some Folder \<Rightarrow> None
                | _ \<Rightarrow> if fs_orphan (CHR ''/'') k s then None
                       else Some (fs_put k (RegularFile []) s)),
       ofstream_write = (\<lambda>k content s. case map_of s k of
                  Some (RegularFile old) \<Rightarrow> fs_put k (RegularFile (old @ content)) s
                | _ \<Rightarrow> s) \<rparr>"

text \<open>
  The Windows instance. \<open>MoveFileA\<close> is refused when the new name is in use.
  \<open>CreateDirectoryA\<close> reports \<open>ERROR_ALREADY_EXISTS\<close> (183) for a name in use and
  \<open>ERROR_PATH_NOT_FOUND\<close> (3) for a missing parent. A regular file has the attribute word
  \<open>FILE_ATTRIBUTE_NORMAL\<close> (0x80).
\<close>

definition fs_attributes :: "node \<Rightarrow> DWORD" where
  "fs_attributes n = (case n of RegularFile _ \<Rightarrow> 0x80 | Folder \<Rightarrow> 0x10)"

definition mem_win32 :: "fs win32" where
  "mem_win32 =
     \<lparr> GetFileAttributesA = (\<lambda>k s. case map_of s k of
                  None \<Rightarrow> 0xFFFFFFFF
                | Some n \<Rightarrow> fs_attributes n),
       CopyFileA = (\<lambda>old new bFailIfExists s. case map_of s old of
                  Some (RegularFile content) \<Rightarrow>
                    (case map_of s new of
                       Some Folder \<Rightarrow> None
                     | Some (RegularFile _) \<Rightarrow>
                         if bFailIfExists then None
                         else Some (fs_put new (RegularFile content) s)
                     | None \<Rightarrow>
                         if fs_orphan backslash new s then None
                         else Some (fs_put new (RegularFile content) s))
                | _ \<Rightarrow> None),
       MoveFileA = (\<lambda>old new s. case map_of s old of
                  None \<Rightarrow> None
                | Some n \<Rightarrow>
                    (case map_of s new of
                       Some _ \<Rightarrow> None
                     | None \<Rightarrow> Some (fs_put new n (fs_remove old s)))),
       DeleteFileA = (\<lambda>k s. case map_of s k of
                  Some (RegularFile _) \<Rightarrow> Some (fs_remove k s)
                | _ \<Rightarrow> None),
       CreateDirectoryA = (\<lambda>k s. case map_of s k of
                  Some _ \<Rightarrow> Inl 183
                | None \<Rightarrow> if fs_orphan backslash k s then Inl 3 else Inr (s @ [(k, Folder)])),
       RemoveDirectoryA = (\<lambda>k s. case map_of s k of
                  Some Folder \<Rightarrow>
                    if fs_children backslash k s = [] then Some (fs_remove k s) else None
                | _ \<Rightarrow> None),
       FindFirstFileA = (\<lambda>pattern s. case map_of s (butlast (butlast pattern)) of
                  Some Folder \<Rightarrow>
                    Some ((''.'', 0x10) # (''..'', 0x10) #
                          map (\<lambda>e. (fst e, fs_attributes (snd e)))
                            (fs_children backslash (butlast (butlast pattern)) s))
                | _ \<Rightarrow> None) \<rparr>"


text \<open>The two hosts with one file that cannot be deleted.\<close>

definition mem_posix_locked :: "string \<Rightarrow> fs posix" where
  "mem_posix_locked k =
     (mem_posix False)\<lparr>unlink := (\<lambda>k' s. if k' = k then None else unlink (mem_posix False) k' s)\<rparr>"

definition mem_win32_locked :: "string \<Rightarrow> fs win32" where
  "mem_win32_locked k =
     mem_win32\<lparr>DeleteFileA := (\<lambda>k' s. if k' = k then None else DeleteFileA mem_win32 k' s)\<rparr>"

text \<open>
  A tree on each host: directory \<open>d\<close> with the files \<open>a\<close> and \<open>c\<close> and the directory
  \<open>b\<close>, which holds the file \<open>x\<close>; beside it the file \<open>f\<close>.
\<close>

definition unix_tree :: fs where
  "unix_tree =
     [(''d'', Folder), (''d/a'', RegularFile [1, 2]), (''d/b'', Folder),
      (''d/b/x'', RegularFile [3]), (''d/c'', RegularFile []), (''f'', RegularFile [7, 0, 7])]"

definition win_tree :: fs where
  "win_tree =
     [(''d'', Folder), (''d'' @ [backslash] @ ''a'', RegularFile [1, 2]),
      (''d'' @ [backslash] @ ''b'', Folder),
      (''d'' @ [backslash] @ ''b'' @ [backslash] @ ''x'', RegularFile [3]),
      (''d'' @ [backslash] @ ''c'', RegularFile []), (''f'', RegularFile [7, 0, 7]),
      (''g'', RegularFile [])]"

section \<open>Notions used in the statements\<close>

text \<open>
  The definitions of this section are not taken from the source: they name what the
  properties below speak about.
\<close>

definition is_separator :: "char \<Rightarrow> bool" where
  "is_separator c = (c = CHR ''/'' \<or> c = backslash)"

text \<open>A string of three or more characters whose last two are separators.\<close>

definition ends_in_two_separators :: "string \<Rightarrow> bool" where
  "ends_in_two_separators s =
     (3 \<le> length s \<and> is_separator (last s) \<and> is_separator (last (butlast s)))"

definition has_trailing_separator :: "char \<Rightarrow> path \<Rightarrow> bool" where
  "has_trailing_separator sep p = (m_path p \<noteq> [] \<and> last (m_path p) = sep)"

text \<open>The root paths: \<open>/\<close> on the POSIX host; a lone backslash or a drive root on Windows.\<close>

definition unix_is_root :: "path \<Rightarrow> bool" where
  "unix_is_root p = (m_path p = ''/'')"

definition win_is_root :: "path \<Rightarrow> bool" where
  "win_is_root p =
     (case m_path p of
        [c] \<Rightarrow> c = backslash
      | [drive, c1, c2] \<Rightarrow> c1 = CHR '':'' \<and> c2 = backslash
      | _ \<Rightarrow> False)"

text \<open>The path that \<open>Directory::list\<close> builds for the entry \<open>name\<close> of directory \<open>d\<close>.\<close>

definition unix_child :: "path \<Rightarrow> string \<Rightarrow> path" where
  "unix_child d name = unix_Path (toString d @ ''/'' @ name)"

definition win_child :: "path \<Rightarrow> string \<Rightarrow> path" where
  "win_child d name = win_Path (toString d @ [backslash] @ name)"

text \<open>
  The names that \<open>Directory::list\<close> keeps of the enumeration of directory \<open>d\<close>: all but
  the two sentinels; none when the directory cannot be opened.
\<close>

definition unix_entries :: "'s posix \<Rightarrow> path \<Rightarrow> 's \<Rightarrow> string list" where
  "unix_entries h d s =
     (case opendir h (toString d) s of
        None \<Rightarrow> []
      | Some names \<Rightarrow> filter (\<lambda>name. name \<noteq> ''.'' \<and> name \<noteq> ''..'') names)"

definition win_entries :: "'s win32 \<Rightarrow> path \<Rightarrow> 's \<Rightarrow> (string \<times> DWORD) list" where
  "win_entries h d s =
     (case FindFirstFileA h (toString d @ [backslash, CHR ''*'']) s of
        None \<Rightarrow> []
      | Some findData \<Rightarrow> filter (\<lambda>e. fst e \<noteq> ''.'' \<and> fst e \<noteq> ''..'') findData)"

text \<open>
  The recursive listing in the words of the specification: the children in the order of
  the enumeration, each directory among them followed at once by its own recursive
  listing. The number bounds the depth to which directories are entered.
\<close>

fun unix_preorder :: "nat \<Rightarrow> 's posix \<Rightarrow> path \<Rightarrow> 's \<Rightarrow> path list" where
  "unix_preorder 0 h d s = map (unix_child d) (unix_entries h d s)"
| "unix_preorder (Suc n) h d s =
     concat (map (\<lambda>name. unix_child d name #
                   (if unix_isDirectory h (unix_child d name) s
                    then unix_preorder n h (unix_child d name) s else []))
               (unix_entries h d s))"

fun win_preorder :: "nat \<Rightarrow> 's win32 \<Rightarrow> path \<Rightarrow> 's \<Rightarrow> path list" where
  "win_preorder 0 h d s = map (\<lambda>e. win_child d (fst e)) (win_entries h d s)"
| "win_preorder (Suc n) h d s =
     concat (map (\<lambda>e. win_child d (fst e) #
                   (if snd e AND FILE_ATTRIBUTE_DIRECTORY \<noteq> 0
                    then win_preorder n h (win_child d (fst e)) s else []))
               (win_entries h d s))"

text \<open>
  The directories below \<open>d\<close> are nested at most \<open>n\<close> deep: what the host must grant
  for the recursive listing to come to an end.
\<close>

fun unix_depth_le :: "nat \<Rightarrow> 's posix \<Rightarrow> path \<Rightarrow> 's \<Rightarrow> bool" where
  "unix_depth_le 0 h d s =
     (\<forall>name \<in> set (unix_entries h d s). \<not> unix_isDirectory h (unix_child d name) s)"
| "unix_depth_le (Suc n) h d s =
     (\<forall>name \<in> set (unix_entries h d s).
        unix_isDirectory h (unix_child d name) s \<longrightarrow> unix_depth_le n h (unix_child d name) s)"

fun win_depth_le :: "nat \<Rightarrow> 's win32 \<Rightarrow> path \<Rightarrow> 's \<Rightarrow> bool" where
  "win_depth_le 0 h d s =
     (\<forall>e \<in> set (win_entries h d s). \<not> snd e AND FILE_ATTRIBUTE_DIRECTORY \<noteq> 0)"
| "win_depth_le (Suc n) h d s =
     (\<forall>e \<in> set (win_entries h d s).
        snd e AND FILE_ATTRIBUTE_DIRECTORY \<noteq> 0 \<longrightarrow> win_depth_le n h (win_child d (fst e)) s)"

text \<open>A name as a host hands it out: not empty, and free of both separators.\<close>

definition plain_name :: "string \<Rightarrow> bool" where
  "plain_name name = (name \<noteq> [] \<and> CHR ''/'' \<notin> set name \<and> backslash \<notin> set name)"

text \<open>
  The removal of one child in the words of the specification: a sub-directory by
  \<open>Directory(child).remove(true)\<close>, anything else by \<open>File(child).remove()\<close>.
\<close>

definition unix_remove_child :: "nat \<Rightarrow> 's posix \<Rightarrow> path \<Rightarrow> 's \<Rightarrow> 's result option" where
  "unix_remove_child fuel h child s =
     (if unix_isDirectory h child s then
        (case fuel of 0 \<Rightarrow> None | Suc n \<Rightarrow> unix_Directory_remove n h child True s)
      else Some (unix_File_remove h child s))"

definition win_remove_child :: "nat \<Rightarrow> 's win32 \<Rightarrow> path \<Rightarrow> 's \<Rightarrow> 's result option" where
  "win_remove_child fuel h child s =
     (if win_isDirectory h child s then
        (case fuel of 0 \<Rightarrow> None | Suc n \<Rightarrow> win_Directory_remove n h child True s)
      else Some (win_File_remove h child s))"

text \<open>
  The state after the children of the list have been removed one after the other, each
  with success; \<open>None\<close> when one of them is not.
\<close>

fun unix_remove_each :: "nat \<Rightarrow> 's posix \<Rightarrow> path list \<Rightarrow> 's \<Rightarrow> 's option" where
  "unix_remove_each fuel h [] s = Some s"
| "unix_remove_each fuel h (child # rest) s =
     (case unix_remove_child fuel h child s of
        Some (Inr _, s1) \<Rightarrow> unix_remove_each fuel h rest s1
      | _ \<Rightarrow> None)"

fun win_remove_each :: "nat \<Rightarrow> 's win32 \<Rightarrow> path list \<Rightarrow> 's \<Rightarrow> 's option" where
  "win_remove_each fuel h [] s = Some s"
| "win_remove_each fuel h (child # rest) s =
     (case win_remove_child fuel h child s of
        Some (Inr _, s1) \<Rightarrow> win_remove_each fuel h rest s1
      | _ \<Rightarrow> None)"

section \<open>String lemmas\<close>

lemma replace_length: "length (replace a b s) = length s"
  by (simp add: replace_def)

lemma replace_absent: "a \<noteq> b \<Longrightarrow> a \<notin> set (replace a b s)"
  by (auto simp: replace_def)

lemma replace_id: "a \<notin> set s \<Longrightarrow> replace a b s = s"
  by (induction s) (auto simp: replace_def)

lemma replace_butlast: "replace a b (butlast s) = butlast (replace a b s)"
  by (simp add: replace_def map_butlast)

lemma replace_last: "s \<noteq> [] \<Longrightarrow> last (replace a b s) = (if last s = a then b else last s)"
  by (simp add: replace_def last_map)

lemma replace_Nil_iff: "(replace a b s = []) = (s = [])"
  by (simp add: replace_def)

lemma unix_replace_last:
  "s \<noteq> [] \<Longrightarrow> (last (replace backslash (CHR ''/'') s) = CHR ''/'') = is_separator (last s)"
  by (auto simp: replace_last is_separator_def)

lemma butlast_neq: "m \<noteq> [] \<Longrightarrow> butlast m \<noteq> m"
  by (metis length_butlast length_greater_0_conv diff_less zero_less_one less_irrefl)

lemma find_last_of_None: "set s \<inter> set chars = {} \<Longrightarrow> find_last_of s chars = None"
  by (induction s) auto

lemma find_last_of_split:
  "c \<in> set chars \<Longrightarrow> set b \<inter> set chars = {} \<Longrightarrow> find_last_of (a @ c # b) chars = Some (length a)"
  by (induction a) (simp_all add: find_last_of_None)

section \<open>Path construction\<close>

lemma unix_Path_no_backslash: "backslash \<notin> set (m_path (unix_Path s))"
proof -
  have "backslash \<notin> set (replace backslash (CHR ''/'') s)"
    by (rule replace_absent) simp
  then show ?thesis
    by (auto simp: unix_Path_def Let_def dest: in_set_butlastD)
qed

lemma win_Path_no_slash: "CHR ''/'' \<notin> set (m_path (win_Path s))"
  unfolding win_Path_def by simp (rule replace_absent, simp)

lemma unix_Path_fixed:
  assumes "backslash \<notin> set m"
  shows "m_path (unix_Path m) = (if 1 < length m \<and> last m = CHR ''/'' then butlast m else m)"
  using assms by (simp add: unix_Path_def Let_def replace_id)

text \<open>
  A second construction changes the string exactly when the first one left a trailing
  slash behind, which it does for the strings that end in two separators.
\<close>

lemma unix_Path_idem_iff:
  "(m_path (unix_Path (m_path (unix_Path s))) = m_path (unix_Path s))
     = (\<not> ends_in_two_separators s)"
proof -
  define m where "m = replace backslash (CHR ''/'') s"
  have nb: "backslash \<notin> set m"
    unfolding m_def by (rule replace_absent) simp
  have len: "length m = length s"
    by (simp add: m_def replace_length)
  have p1: "m_path (unix_Path s) = (if 1 < length m \<and> last m = CHR ''/'' then butlast m else m)"
    by (simp add: unix_Path_def Let_def m_def)
  show ?thesis
  proof (cases "1 < length m \<and> last m = CHR ''/''")
    case False
    then have eq: "m_path (unix_Path s) = m" by (auto simp: p1)
    have "m_path (unix_Path m) = m"
      using False nb by (auto simp: unix_Path_fixed)
    moreover have "\<not> ends_in_two_separators s"
    proof
      assume e: "ends_in_two_separators s"
      then have "s \<noteq> []" "1 < length m"
        by (auto simp: ends_in_two_separators_def len)
      moreover from e \<open>s \<noteq> []\<close> have "last m = CHR ''/''"
        by (simp add: m_def unix_replace_last ends_in_two_separators_def)
      ultimately show False using False by simp
    qed
    ultimately show ?thesis by (simp add: eq)
  next
    case True
    then have eq: "m_path (unix_Path s) = butlast m" by (auto simp: p1)
    from True have sne: "s \<noteq> []" "butlast s \<noteq> []" "m \<noteq> []" "butlast m \<noteq> []"
      using len by (auto simp: Suc_lessI dest!: arg_cong[where f=length])
    have nb': "backslash \<notin> set (butlast m)"
      using nb by (auto dest: in_set_butlastD)
    have bl: "butlast m = replace backslash (CHR ''/'') (butlast s)"
      by (simp add: m_def replace_butlast)
    have lastb: "(last (butlast m) = CHR ''/'') = is_separator (last (butlast s))"
      unfolding bl using sne(2) by (rule unix_replace_last)
    have lastm: "is_separator (last s)"
      using True sne(1) by (simp add: m_def unix_replace_last)
    have "m_path (unix_Path (butlast m)) =
            (if 1 < length (butlast m) \<and> last (butlast m) = CHR ''/''
             then butlast (butlast m) else butlast m)"
      using nb' by (rule unix_Path_fixed)
    then have "(m_path (unix_Path (butlast m)) = butlast m)
                 = (\<not> (1 < length (butlast m) \<and> last (butlast m) = CHR ''/''))"
      using butlast_neq [OF sne(4)] by auto
    also have "\<dots> = (\<not> ends_in_two_separators s)"
      using lastb lastm len by (auto simp: ends_in_two_separators_def)
    finally show ?thesis by (simp add: eq)
  qed
qed

lemma win_Path_idem: "m_path (win_Path (m_path (win_Path s))) = m_path (win_Path s)"
proof -
  have "CHR ''/'' \<notin> set (replace (CHR ''/'') backslash s)"
    by (rule replace_absent) simp
  then show ?thesis
    by (simp add: win_Path_def replace_id)
qed

text \<open>
  C2, as stated, fails on the POSIX host: of two trailing separators only one is removed,
  and the second construction removes the other.
\<close>

theorem unix_Path_not_idempotent:
  "toString (unix_Path (toString (unix_Path ''a//''))) \<noteq> toString (unix_Path ''a//'')"
  by (simp add: unix_Path_def toString_def replace_def)

text \<open>
  C2, amended: for every string \<open>s\<close>, a separator that occurs in the path is the one that
  \<open>Path::separator\<close> returns on that host; construction is idempotent on Windows for every
  \<open>s\<close>, and on the POSIX host exactly for the strings that do not end in two separators
  after at least one more character.
\<close>

theorem Path_native_separator_idempotent:
  "(\<forall>c \<in> set (toString (unix_Path s)). is_separator c \<longrightarrow> c = unix_separator) \<and>
   (\<forall>c \<in> set (toString (win_Path s)). is_separator c \<longrightarrow> c = win_separator) \<and>
   toString (win_Path (toString (win_Path s))) = toString (win_Path s) \<and>
   ((toString (unix_Path (toString (unix_Path s))) = toString (unix_Path s))
      = (\<not> ends_in_two_separators s))"
proof (intro conjI)
  show "\<forall>c \<in> set (toString (unix_Path s)). is_separator c \<longrightarrow> c = unix_separator"
    using unix_Path_no_backslash [of s]
    by (auto simp: toString_def is_separator_def unix_separator_def)
  show "\<forall>c \<in> set (toString (win_Path s)). is_separator c \<longrightarrow> c = win_separator"
    using win_Path_no_slash [of s]
    by (auto simp: toString_def is_separator_def win_separator_def)
  show "toString (win_Path (toString (win_Path s))) = toString (win_Path s)"
    unfolding toString_def by (rule win_Path_idem)
  show "(toString (unix_Path (toString (unix_Path s))) = toString (unix_Path s))
      = (\<not> ends_in_two_separators s)"
    unfolding toString_def by (rule unix_Path_idem_iff)
qed

text \<open>C2, amended, at a string with mixed separators and one trailing separator.\<close>

theorem Path_native_separator_idempotent_witness:
  "\<not> ends_in_two_separators (''a'' @ [backslash] @ ''b/c/'') \<and>
   toString (unix_Path (toString (unix_Path (''a'' @ [backslash] @ ''b/c/''))))
     = toString (unix_Path (''a'' @ [backslash] @ ''b/c/'')) \<and>
   toString (unix_Path (''a'' @ [backslash] @ ''b/c/'')) = ''a/b/c''"
proof -
  have a: "\<not> ends_in_two_separators (''a'' @ [backslash] @ ''b/c/'')"
    by code_simp
  have b: "toString (unix_Path (''a'' @ [backslash] @ ''b/c/'')) = ''a/b/c''"
    by code_simp
  from Path_native_separator_idempotent [of "''a'' @ [backslash] @ ''b/c/''"] a b
  show ?thesis by blast
qed

lemma unix_Path_trailing:
  assumes "\<not> ends_in_two_separators s" "has_trailing_separator (CHR ''/'') (unix_Path s)"
  shows "unix_is_root (unix_Path s)"
proof -
  define m where "m = replace backslash (CHR ''/'') s"
  have len: "length m = length s"
    by (simp add: m_def replace_length)
  have p1: "m_path (unix_Path s) = (if 1 < length m \<and> last m = CHR ''/'' then butlast m else m)"
    by (simp add: unix_Path_def Let_def m_def)
  show ?thesis
  proof (cases "1 < length m \<and> last m = CHR ''/''")
    case False
    then have eq: "m_path (unix_Path s) = m" by (auto simp: p1)
    with assms(2) have "m \<noteq> []" "last m = CHR ''/''"
      by (auto simp: has_trailing_separator_def)
    with False have "length m = 1"
      by (cases m) auto
    with \<open>last m = CHR ''/''\<close> have "m = ''/''"
      by (cases m) auto
    then show ?thesis by (simp add: unix_is_root_def eq)
  next
    case True
    then have eq: "m_path (unix_Path s) = butlast m" by (auto simp: p1)
    with assms(2) have bl: "butlast m \<noteq> []" "last (butlast m) = CHR ''/''"
      by (auto simp: has_trailing_separator_def)
    from True have sne: "s \<noteq> []" "butlast s \<noteq> []"
      using len bl(1) by (auto simp: m_def replace_butlast [symmetric] replace_Nil_iff)
    have "is_separator (last s)"
      using True sne(1) by (simp add: m_def unix_replace_last)
    moreover have "is_separator (last (butlast s))"
      using bl(2) sne(2) by (simp add: m_def replace_butlast [symmetric] unix_replace_last)
    ultimately have "\<not> 3 \<le> length s"
      using assms(1) by (simp add: ends_in_two_separators_def)
    with True len have "length m = 2" by simp
    then obtain a b where "m = [a, b]"
      by (cases m; cases "tl m") auto
    with bl(2) have "butlast m = ''/''" by simp
    then show ?thesis by (simp add: unix_is_root_def eq)
  qed
qed

text \<open>
  C3, as stated, fails on both hosts: the POSIX constructor leaves \<open>a/\<close> for \<open>a//\<close>, and
  the Windows constructor removes no trailing separator at all.
\<close>

theorem Path_trailing_separator_kept:
  "has_trailing_separator (CHR ''/'') (unix_Path ''a//'') \<and> \<not> unix_is_root (unix_Path ''a//'') \<and>
   has_trailing_separator backslash (win_Path ''a/'') \<and> \<not> win_is_root (win_Path ''a/'')"
  by (simp add: has_trailing_separator_def unix_is_root_def win_is_root_def unix_Path_def
      win_Path_def replace_def)

text \<open>
  C3, amended: on the POSIX host, for every string \<open>s\<close> that does not end in two
  separators after at least one more character, the path has no trailing separator unless
  it is the root \<open>/\<close>. The Windows constructor, which lacks the step that its POSIX
  sibling has, is left out of the statement.
\<close>

theorem Path_trailing_separator:
  "\<not> ends_in_two_separators s \<longrightarrow>
     has_trailing_separator (CHR ''/'') (unix_Path s) \<longrightarrow> unix_is_root (unix_Path s)"
  using unix_Path_trailing by blast

text \<open>
  C3, amended, at the root (where the trailing separator stays) and at a directory name
  written with a trailing separator (where it goes).
\<close>

theorem Path_trailing_separator_witness:
  "\<not> ends_in_two_separators ''/'' \<and> has_trailing_separator (CHR ''/'') (unix_Path ''/'') \<and>
   unix_is_root (unix_Path ''/'') \<and>
   \<not> ends_in_two_separators ''usr/lib/'' \<and>
   \<not> has_trailing_separator (CHR ''/'') (unix_Path ''usr/lib/'') \<and>
   toString (unix_Path ''usr/lib/'') = ''usr/lib''"
  using Path_trailing_separator [of "''/''"] Path_trailing_separator [of "''usr/lib/''"]
  by (simp add: ends_in_two_separators_def is_separator_def has_trailing_separator_def
      unix_Path_def replace_def toString_def)

section \<open>Parent\<close>

text \<open>
  What \<open>Path::parent\<close> returns on the POSIX host, by the place of the last slash: none,
  the first character, or later.
\<close>

lemma unix_parent_cases:
  "(CHR ''/'' \<notin> set m \<longrightarrow> unix_parent \<lparr>m_path = m\<rparr> = \<lparr>m_path = ''.''\<rparr>) \<and>
   (CHR ''/'' \<notin> set b \<longrightarrow> unix_parent \<lparr>m_path = CHR ''/'' # b\<rparr> = \<lparr>m_path = ''/''\<rparr>) \<and>
   (CHR ''/'' \<notin> set b \<and> a \<noteq> [] \<longrightarrow> unix_parent \<lparr>m_path = a @ CHR ''/'' # b\<rparr> = unix_Path a)"
proof (intro conjI impI)
  assume "CHR ''/'' \<notin> set m"
  then have "find_last_of m ''/'' = None"
    by (intro find_last_of_None) simp
  then show "unix_parent \<lparr>m_path = m\<rparr> = \<lparr>m_path = ''.''\<rparr>"
    by (simp add: unix_parent_def unix_Path_def replace_def)
next
  assume "CHR ''/'' \<notin> set b"
  then have "find_last_of ([] @ CHR ''/'' # b) ''/'' = Some (length ([] :: string))"
    by (intro find_last_of_split) simp_all
  then show "unix_parent \<lparr>m_path = CHR ''/'' # b\<rparr> = \<lparr>m_path = ''/''\<rparr>"
    by (simp add: unix_parent_def unix_Path_def replace_def)
next
  assume "CHR ''/'' \<notin> set b \<and> a \<noteq> []"
  then have "find_last_of (a @ CHR ''/'' # b) ''/'' = Some (length a)" "a \<noteq> []"
    by (simp_all add: find_last_of_split)
  then show "unix_parent \<lparr>m_path = a @ CHR ''/'' # b\<rparr> = unix_Path a"
    by (simp add: unix_parent_def)
qed

text \<open>
  On Windows there are two cases only: no separator, or the string before the last one,
  also when that string is empty.
\<close>

lemma win_parent_cases:
  "(CHR ''/'' \<notin> set m \<and> backslash \<notin> set m \<longrightarrow> win_parent \<lparr>m_path = m\<rparr> = \<lparr>m_path = []\<rparr>) \<and>
   (is_separator c \<and> CHR ''/'' \<notin> set b \<and> backslash \<notin> set b \<longrightarrow>
      win_parent \<lparr>m_path = a @ c # b\<rparr> = win_Path a)"
proof (intro conjI impI)
  assume "CHR ''/'' \<notin> set m \<and> backslash \<notin> set m"
  then have "find_last_of m [backslash, CHR ''/''] = None"
    by (intro find_last_of_None) simp
  then show "win_parent \<lparr>m_path = m\<rparr> = \<lparr>m_path = []\<rparr>"
    by (simp add: win_parent_def win_Path_def replace_def)
next
  assume "is_separator c \<and> CHR ''/'' \<notin> set b \<and> backslash \<notin> set b"
  then have "find_last_of (a @ c # b) [backslash, CHR ''/''] = Some (length a)"
    by (intro find_last_of_split) (auto simp: is_separator_def)
  then show "win_parent \<lparr>m_path = a @ c # b\<rparr> = win_Path a"
    by (simp add: win_parent_def)
qed

text \<open>
  C4: the parent of a path whose only separator is the leading one is the root. The POSIX
  \<open>parent\<close> returns it; the Windows \<open>parent\<close> has no such case and returns the empty path,
  its answer for a string without any separator.
\<close>

theorem win_parent_of_root_entry:
  "win_parent (win_Path (backslash # ''foo'')) = \<lparr>m_path = []\<rparr> \<and>
   win_parent (win_Path (backslash # ''foo'')) \<noteq> win_Path [backslash] \<and>
   win_parent (win_Path ''foo'') = \<lparr>m_path = []\<rparr> \<and>
   unix_parent (unix_Path ''/foo'') = unix_Path ''/''"
  by (simp add: win_parent_def win_Path_def unix_parent_def unix_Path_def replace_def)

section \<open>Evaluation on the small hosts\<close>

lemmas mem_eval =
  unix_Path_def win_Path_def replace_def toString_def mem_posix_def mem_win32_def
  unix_tree_def win_tree_def fs_children_def fs_remove_def fs_put_def fs_orphan_def
  fs_attributes_def

section \<open>Move\<close>

text \<open>
  C1, as stated, fails on Windows: with the new name in use \<open>MoveFileA\<close> is refused, and
  \<open>File::move\<close> throws and leaves the host as it was, while copying and then deleting
  the source would have succeeded.
\<close>

theorem win_File_move_no_fallback:
  "MoveFileA mem_win32 (toString (win_Path ''f'')) (toString (win_Path ''g'')) win_tree = None \<and>
   win_File_move mem_win32 (win_Path ''f'') (win_Path ''g'') win_tree
     = (Inl (FileSystemException ''Could not move file''), win_tree) \<and>
   (case win_File_copy mem_win32 (win_Path ''f'') (win_Path ''g'') win_tree of
      (Inl e, s1) \<Rightarrow> (Inl e, s1)
    | (Inr u, s1) \<Rightarrow> win_File_remove mem_win32 (win_Path ''f'') s1)
     = (Inr (), fs_put ''g'' (RegularFile [7, 0, 7]) (fs_remove ''f'' win_tree))"
  by (simp add: win_File_move_def win_File_copy_def win_File_remove_def mem_eval)

text \<open>
  C1, amended: on the POSIX host \<open>move\<close> first attempts the rename; when that succeeds
  nothing else is done, and when it fails the outcome is that of the copy followed, if the
  copy did not throw, by the removal of the source: with both streams open, the bytes read
  from the source are written to the destination and the source is unlinked in the state
  that leaves. On Windows \<open>move\<close> is the native move
  alone: when that fails, an exception is thrown and nothing is copied or deleted.
\<close>

theorem File_move_rename_first:
  "(\<forall>s1. rename h (toString p) (toString d) s = Some s1 \<longrightarrow>
      unix_File_move h p d s = (Inr (), s1)) \<and>
   (rename h (toString p) (toString d) s = None \<longrightarrow>
      unix_File_move h p d s =
        (case unix_File_copy h p d s of
           (Inl e, s1) \<Rightarrow> (Inl e, s1)
         | (Inr u, s1) \<Rightarrow> unix_File_remove h p s1)) \<and>
   (\<forall>s1. rename h (toString p) (toString d) s = None \<longrightarrow>
      ifstream_open h (toString p) s \<longrightarrow> ofstream_open h (toString d) s = Some s1 \<longrightarrow>
      unix_File_move h p d s =
        unix_File_remove h p (ofstream_write h (toString d) (rdbuf h (toString p) s1) s1)) \<and>
   (\<forall>t1. MoveFileA w (toString p) (toString d) t = Some t1 \<longrightarrow>
      win_File_move w p d t = (Inr (), t1)) \<and>
   (MoveFileA w (toString p) (toString d) t = None \<longrightarrow>
      win_File_move w p d t = (Inl (FileSystemException ''Could not move file''), t))"
  by (simp add: unix_File_move_def unix_File_copy_def win_File_move_def)

text \<open>
  C1, amended, where the rename is refused on the POSIX host (the file arrives by copy and
  the source is gone) and where the move is refused on Windows.
\<close>

theorem File_move_rename_first_witness:
  "rename (mem_posix True) (toString (unix_Path ''f'')) (toString (unix_Path ''d/f'')) unix_tree
     = None \<and>
   unix_File_move (mem_posix True) (unix_Path ''f'') (unix_Path ''d/f'') unix_tree
     = (Inr (), fs_remove ''f'' unix_tree @ [(''d/f'', RegularFile [7, 0, 7])]) \<and>
   MoveFileA mem_win32 (toString (win_Path ''f'')) (toString (win_Path ''g'')) win_tree = None \<and>
   win_File_move mem_win32 (win_Path ''f'') (win_Path ''g'') win_tree
     = (Inl (FileSystemException ''Could not move file''), win_tree)"
  using File_move_rename_first [of "mem_posix True" "unix_Path ''f''" "unix_Path ''d/f''"
      unix_tree mem_win32 win_tree]
    File_move_rename_first [of "mem_posix True" "win_Path ''f''" "win_Path ''g''"
      unix_tree mem_win32 win_tree]
  by (simp add: unix_File_copy_def unix_File_remove_def mem_eval)




section \<open>Probes\<close>

lemma unix_list_failure:
  "opendir h (toString p) s = None \<Longrightarrow> unix_Directory_list fuel h p recursive s = Some []"
  by simp

lemma win_list_failure:
  "FindFirstFileA w (toString p @ [backslash, CHR ''*'']) t = None \<Longrightarrow>
     win_Directory_list fuel w p recursive t = Some []"
  by simp

text \<open>
  C7: the three predicates return a truth value and the listing returns a sequence, with
  no exception among their results. When the metadata query fails the predicates are false,
  and when the directory cannot be opened the listing is empty, for either value of
  \<open>recursive\<close> and without any nested call.
\<close>

theorem probes_never_raise:
  "(stat h (m_path p) s = None \<longrightarrow>
      \<not> unix_exists h p s \<and> \<not> unix_isDirectory h p s \<and> \<not> unix_isFile h p s) \<and>
   (opendir h (toString p) s = None \<longrightarrow>
      unix_Directory_list fuel h p recursive s = Some []) \<and>
   (GetFileAttributesA w (m_path p) t = INVALID_FILE_ATTRIBUTES \<longrightarrow>
      \<not> win_exists w p t \<and> \<not> win_isDirectory w p t \<and> \<not> win_isFile w p t) \<and>
   (FindFirstFileA w (toString p @ [backslash, CHR ''*'']) t = None \<longrightarrow>
      win_Directory_list fuel w p recursive t = Some [])"
  by (simp add: unix_exists_def unix_isDirectory_def unix_isFile_def win_exists_def
      win_isDirectory_def win_isFile_def unix_list_failure win_list_failure
      del: unix_Directory_list.simps win_Directory_list.simps)

text \<open>C7 at a name that neither tree holds.\<close>

theorem probes_never_raise_witness:
  "stat (mem_posix False) (m_path (unix_Path ''nowhere'')) unix_tree = None \<and>
   \<not> unix_exists (mem_posix False) (unix_Path ''nowhere'') unix_tree \<and>
   \<not> unix_isDirectory (mem_posix False) (unix_Path ''nowhere'') unix_tree \<and>
   \<not> unix_isFile (mem_posix False) (unix_Path ''nowhere'') unix_tree \<and>
   opendir (mem_posix False) (toString (unix_Path ''nowhere'')) unix_tree = None \<and>
   unix_Directory_list 0 (mem_posix False) (unix_Path ''nowhere'') True unix_tree = Some [] \<and>
   GetFileAttributesA mem_win32 (m_path (win_Path ''nowhere'')) win_tree
     = INVALID_FILE_ATTRIBUTES \<and>
   \<not> win_exists mem_win32 (win_Path ''nowhere'') win_tree \<and>
   FindFirstFileA mem_win32 (toString (win_Path ''nowhere'') @ [backslash, CHR ''*'']) win_tree
     = None \<and>
   win_Directory_list 0 mem_win32 (win_Path ''nowhere'') True win_tree = Some []"
proof -
  have a: "stat (mem_posix False) (m_path (unix_Path ''nowhere'')) unix_tree = None"
    and b: "opendir (mem_posix False) (toString (unix_Path ''nowhere'')) unix_tree = None"
    and c: "GetFileAttributesA mem_win32 (m_path (win_Path ''nowhere'')) win_tree
              = INVALID_FILE_ATTRIBUTES"
    and d: "FindFirstFileA mem_win32 (toString (win_Path ''nowhere'') @ [backslash, CHR ''*''])
              win_tree = None"
    by (simp_all add: mem_eval INVALID_FILE_ATTRIBUTES_def)
  note inst = probes_never_raise [where h = "mem_posix False" and s = unix_tree and fuel = 0
      and recursive = True and w = mem_win32 and t = win_tree]
  from inst [of "unix_Path ''nowhere''"] inst [of "win_Path ''nowhere''"] a b c d
  show ?thesis by blast
qed

section \<open>Create and exists\<close>

text \<open>
  C8, as stated, fails on both hosts: for a name that a regular file holds the host
  rejects the creation with "already exists", no directory exists there before or after,
  and \<open>create\<close> returns without exception.
\<close>

theorem Directory_create_on_regular_file:
  "\<not> unix_Directory_exists (mem_posix False) (unix_Path ''f'') unix_tree \<and>
   mkdir (mem_posix False) (toString (unix_Path ''f'')) 0x1ED unix_tree = Inl EEXIST \<and>
   unix_Directory_create (mem_posix False) (unix_Path ''f'') unix_tree = (Inr (), unix_tree) \<and>
   \<not> win_Directory_exists mem_win32 (win_Path ''f'') win_tree \<and>
   CreateDirectoryA mem_win32 (toString (win_Path ''f'')) win_tree = Inl ERROR_ALREADY_EXISTS \<and>
   win_Directory_create mem_win32 (win_Path ''f'') win_tree = (Inr (), win_tree)"
  by code_simp

text \<open>
  C8, amended: when the directory already exists and the host answers the creation with
  "already exists" (\<open>EEXIST\<close>, \<open>ERROR_ALREADY_EXISTS\<close>), \<open>create\<close> succeeds and leaves the
  host as it was; when the host creates the directory, \<open>create\<close> succeeds in the state
  that leaves; a second \<open>create\<close> after one that did not throw does not throw either, on a
  host that reports a directory it has just created as existing; and every rejection with
  an error other than "already exists" makes \<open>create\<close> throw, the host unchanged. What
  \<open>create\<close> does when "already exists" is reported for a name that no directory holds is
  left out of the statement.
\<close>

theorem Directory_create_idempotent:
  "(unix_Directory_exists h p s \<longrightarrow> mkdir h (toString p) 0x1ED s = Inl EEXIST \<longrightarrow>
      unix_Directory_create h p s = (Inr (), s)) \<and>
   (\<forall>s1. mkdir h (toString p) 0x1ED s = Inr s1 \<longrightarrow> unix_Directory_create h p s = (Inr (), s1)) \<and>
   ((\<forall>s1. mkdir h (toString p) 0x1ED s = Inr s1 \<longrightarrow> mkdir h (toString p) 0x1ED s1 = Inl EEXIST) \<longrightarrow>
      fst (unix_Directory_create h p s) = Inr () \<longrightarrow>
      fst (unix_Directory_create h p (snd (unix_Directory_create h p s))) = Inr ()) \<and>
   (\<forall>errno. mkdir h (toString p) 0x1ED s = Inl errno \<longrightarrow> errno \<noteq> EEXIST \<longrightarrow>
      unix_Directory_create h p s
        = (Inl (FileSystemException ''Could not create directory''), s)) \<and>
   (win_Directory_exists w p t \<longrightarrow> CreateDirectoryA w (toString p) t = Inl ERROR_ALREADY_EXISTS \<longrightarrow>
      win_Directory_create w p t = (Inr (), t)) \<and>
   (\<forall>t1. CreateDirectoryA w (toString p) t = Inr t1 \<longrightarrow>
      win_Directory_create w p t = (Inr (), t1)) \<and>
   ((\<forall>t1. CreateDirectoryA w (toString p) t = Inr t1 \<longrightarrow>
        CreateDirectoryA w (toString p) t1 = Inl ERROR_ALREADY_EXISTS) \<longrightarrow>
      fst (win_Directory_create w p t) = Inr () \<longrightarrow>
      fst (win_Directory_create w p (snd (win_Directory_create w p t))) = Inr ()) \<and>
   (\<forall>lastError. CreateDirectoryA w (toString p) t = Inl lastError \<longrightarrow>
      lastError \<noteq> ERROR_ALREADY_EXISTS \<longrightarrow>
      win_Directory_create w p t
        = (Inl (FileSystemException ''Could not create directory''), t))"
proof (intro conjI)
  show "unix_Directory_exists h p s \<longrightarrow> mkdir h (toString p) 0x1ED s = Inl EEXIST \<longrightarrow>
      unix_Directory_create h p s = (Inr (), s)"
    by (simp add: unix_Directory_create_def)
  show "\<forall>s1. mkdir h (toString p) 0x1ED s = Inr s1 \<longrightarrow> unix_Directory_create h p s = (Inr (), s1)"
    by (simp add: unix_Directory_create_def)
  show "(\<forall>s1. mkdir h (toString p) 0x1ED s = Inr s1 \<longrightarrow> mkdir h (toString p) 0x1ED s1 = Inl EEXIST) \<longrightarrow>
      fst (unix_Directory_create h p s) = Inr () \<longrightarrow>
      fst (unix_Directory_create h p (snd (unix_Directory_create h p s))) = Inr ()"
    by (auto simp: unix_Directory_create_def split: sum.splits if_splits)
  show "\<forall>errno. mkdir h (toString p) 0x1ED s = Inl errno \<longrightarrow> errno \<noteq> EEXIST \<longrightarrow>
      unix_Directory_create h p s
        = (Inl (FileSystemException ''Could not create directory''), s)"
    by (simp add: unix_Directory_create_def)
  show "win_Directory_exists w p t \<longrightarrow> CreateDirectoryA w (toString p) t = Inl ERROR_ALREADY_EXISTS \<longrightarrow>
      win_Directory_create w p t = (Inr (), t)"
    by (simp add: win_Directory_create_def)
  show "\<forall>t1. CreateDirectoryA w (toString p) t = Inr t1 \<longrightarrow>
      win_Directory_create w p t = (Inr (), t1)"
    by (simp add: win_Directory_create_def)
  show "(\<forall>t1. CreateDirectoryA w (toString p) t = Inr t1 \<longrightarrow>
        CreateDirectoryA w (toString p) t1 = Inl ERROR_ALREADY_EXISTS) \<longrightarrow>
      fst (win_Directory_create w p t) = Inr () \<longrightarrow>
      fst (win_Directory_create w p (snd (win_Directory_create w p t))) = Inr ()"
    by (auto simp: win_Directory_create_def split: sum.splits if_splits)
  show "\<forall>lastError. CreateDirectoryA w (toString p) t = Inl lastError \<longrightarrow>
      lastError \<noteq> ERROR_ALREADY_EXISTS \<longrightarrow>
      win_Directory_create w p t
        = (Inl (FileSystemException ''Could not create directory''), t)"
    by (simp add: win_Directory_create_def)
qed

text \<open>
  C8, amended, on the two hosts: the existing directory \<open>d\<close>, a fresh name twice, and a
  name whose parent is missing.
\<close>

theorem Directory_create_idempotent_witness:
  "unix_Directory_exists (mem_posix False) (unix_Path ''d'') unix_tree \<and>
   unix_Directory_create (mem_posix False) (unix_Path ''d'') unix_tree = (Inr (), unix_tree) \<and>
   fst (unix_Directory_create (mem_posix False) (unix_Path ''q'') unix_tree) = Inr () \<and>
   fst (unix_Directory_create (mem_posix False) (unix_Path ''q'')
          (snd (unix_Directory_create (mem_posix False) (unix_Path ''q'') unix_tree))) = Inr () \<and>
   mkdir (mem_posix False) (toString (unix_Path ''q/r'')) 0x1ED unix_tree = Inl 2 \<and>
   unix_Directory_create (mem_posix False) (unix_Path ''q/r'') unix_tree
     = (Inl (FileSystemException ''Could not create directory''), unix_tree) \<and>
   win_Directory_exists mem_win32 (win_Path ''d'') win_tree \<and>
   win_Directory_create mem_win32 (win_Path ''d'') win_tree = (Inr (), win_tree) \<and>
   fst (win_Directory_create mem_win32 (win_Path ''q'') win_tree) = Inr () \<and>
   fst (win_Directory_create mem_win32 (win_Path ''q'')
          (snd (win_Directory_create mem_win32 (win_Path ''q'') win_tree))) = Inr ()"
proof -
  let ?h = "mem_posix False"
  have x1: "unix_Directory_exists ?h (unix_Path ''d'') unix_tree"
    by code_simp
  have x2: "mkdir ?h (toString (unix_Path ''d'')) 0x1ED unix_tree = Inl EEXIST"
    by code_simp
  have x3: "win_Directory_exists mem_win32 (win_Path ''d'') win_tree"
    by code_simp
  have x4: "CreateDirectoryA mem_win32 (toString (win_Path ''d'')) win_tree
              = Inl ERROR_ALREADY_EXISTS"
    by code_simp
  have m1: "mkdir ?h (toString (unix_Path ''q'')) 0x1ED unix_tree = Inr (unix_tree @ [(''q'', Folder)])"
    by code_simp
  have m2: "mkdir ?h (toString (unix_Path ''q'')) 0x1ED (unix_tree @ [(''q'', Folder)]) = Inl EEXIST"
    by code_simp
  have m3: "mkdir ?h (toString (unix_Path ''q/r'')) 0x1ED unix_tree = Inl 2"
    by code_simp
  have c1: "fst (unix_Directory_create ?h (unix_Path ''q'') unix_tree) = Inr ()"
    by code_simp
  have w1: "CreateDirectoryA mem_win32 (toString (win_Path ''q'')) win_tree
               = Inr (win_tree @ [(''q'', Folder)])"
    by code_simp
  have w2: "CreateDirectoryA mem_win32 (toString (win_Path ''q'')) (win_tree @ [(''q'', Folder)])
               = Inl ERROR_ALREADY_EXISTS"
    by code_simp
  have c2: "fst (win_Directory_create mem_win32 (win_Path ''q'') win_tree) = Inr ()"
    by code_simp
  have ne: "(2::int) \<noteq> EEXIST" by (simp add: EEXIST_def)
  note inst = Directory_create_idempotent [where h = ?h and s = unix_tree and w = mem_win32
      and t = win_tree]
  from inst [of "unix_Path ''d''"] inst [of "win_Path ''d''"] x1 x2 x3 x4
  have existing: "unix_Directory_create ?h (unix_Path ''d'') unix_tree = (Inr (), unix_tree)"
    "win_Directory_create mem_win32 (win_Path ''d'') win_tree = (Inr (), win_tree)"
    by blast+
  from inst [of "unix_Path ''q''", THEN conjunct2, THEN conjunct2, THEN conjunct1] m1 m2 c1
  have twice_unix: "fst (unix_Directory_create ?h (unix_Path ''q'')
                 (snd (unix_Directory_create ?h (unix_Path ''q'') unix_tree))) = Inr ()"
    by simp
  from inst [of "win_Path ''q''", THEN conjunct2, THEN conjunct2, THEN conjunct2,
      THEN conjunct2, THEN conjunct2, THEN conjunct2, THEN conjunct1] w1 w2 c2
  have twice_win: "fst (win_Directory_create mem_win32 (win_Path ''q'')
          (snd (win_Directory_create mem_win32 (win_Path ''q'') win_tree))) = Inr ()"
    by simp
  note twice = twice_unix twice_win
  from inst [of "unix_Path ''q/r''"] m3 ne
  have other: "unix_Directory_create ?h (unix_Path ''q/r'') unix_tree
     = (Inl (FileSystemException ''Could not create directory''), unix_tree)"
    by blast
  from x1 x3 existing c1 c2 m3 twice other show ?thesis by blast
qed

text \<open>
  C9: \<open>File::exists\<close> is true exactly when the metadata query succeeds and reports a
  regular file (on Windows: attributes without the directory bit), \<open>Directory::exists\<close>
  exactly when it succeeds and reports a directory; a path for which \<open>File::exists\<close>
  holds is not a directory.
\<close>

theorem File_Directory_exists:
  "unix_File_exists h p s = (\<exists>st_mode. stat h (m_path p) s = Some st_mode \<and> S_ISREG st_mode) \<and>
   unix_Directory_exists h p s = (\<exists>st_mode. stat h (m_path p) s = Some st_mode \<and> S_ISDIR st_mode) \<and>
   \<not> (unix_File_exists h p s \<and> unix_isDirectory h p s) \<and>
   win_File_exists w p t =
     (GetFileAttributesA w (m_path p) t \<noteq> INVALID_FILE_ATTRIBUTES \<and>
      GetFileAttributesA w (m_path p) t AND FILE_ATTRIBUTE_DIRECTORY = 0) \<and>
   win_Directory_exists w p t =
     (GetFileAttributesA w (m_path p) t \<noteq> INVALID_FILE_ATTRIBUTES \<and>
      GetFileAttributesA w (m_path p) t AND FILE_ATTRIBUTE_DIRECTORY \<noteq> 0) \<and>
   \<not> (win_File_exists w p t \<and> win_isDirectory w p t)"
  by (auto simp: unix_File_exists_def unix_Directory_exists_def unix_exists_def unix_isFile_def
      unix_isDirectory_def S_ISREG_def S_ISDIR_def S_IFREG_def S_IFDIR_def
      win_File_exists_def win_Directory_exists_def win_exists_def win_isFile_def
      win_isDirectory_def Let_def split: option.splits)

text \<open>C9 on the two trees: a file, a directory and a name that is not there.\<close>

theorem File_Directory_exists_witness:
  "unix_File_exists (mem_posix False) (unix_Path ''d/a'') unix_tree \<and>
   \<not> unix_Directory_exists (mem_posix False) (unix_Path ''d/a'') unix_tree \<and>
   unix_Directory_exists (mem_posix False) (unix_Path ''d/b'') unix_tree \<and>
   \<not> unix_File_exists (mem_posix False) (unix_Path ''d/b'') unix_tree \<and>
   \<not> unix_File_exists (mem_posix False) (unix_Path ''nowhere'') unix_tree \<and>
   win_File_exists mem_win32 (win_Path ''f'') win_tree \<and>
   win_Directory_exists mem_win32 (win_Path ''d'') win_tree \<and>
   \<not> win_File_exists mem_win32 (win_Path ''d'') win_tree"
proof -
  let ?h = "mem_posix False"
  have s1: "stat ?h (m_path (unix_Path ''d/a'')) unix_tree = Some 0x81A4"
    by code_simp
  have s2: "stat ?h (m_path (unix_Path ''d/b'')) unix_tree = Some 0x41ED"
    by code_simp
  have s3: "stat ?h (m_path (unix_Path ''nowhere'')) unix_tree = None"
    by code_simp
  have s4: "GetFileAttributesA mem_win32 (m_path (win_Path ''f'')) win_tree = 0x80"
    by code_simp
  have s5: "GetFileAttributesA mem_win32 (m_path (win_Path ''d'')) win_tree = 0x10"
    by code_simp
  note s = s1 s2 s3 s4 s5
  note inst = File_Directory_exists [where h = ?h and s = unix_tree and w = mem_win32
      and t = win_tree]
  from inst [of "unix_Path ''d/a''"] inst [of "unix_Path ''d/b''"] inst [of "unix_Path ''nowhere''"]
    inst [of "win_Path ''f''"] inst [of "win_Path ''d''"] s
  show ?thesis
    by (simp add: S_ISREG_def S_ISDIR_def S_IFMT_def S_IFREG_def S_IFDIR_def
        INVALID_FILE_ATTRIBUTES_def FILE_ATTRIBUTE_DIRECTORY_def)
qed

section \<open>Listing\<close>

lemma unix_child_fold: "unix_Path (toString d @ CHR ''/'' # name) = unix_child d name"
  by (simp add: unix_child_def)

lemma win_child_fold: "win_Path (toString d @ backslash # name) = win_child d name"
  by (simp add: win_child_def)

lemma unix_list_loop_flat:
  "unix_list_loop fuel h d False s names acc =
     Some (acc @ map (unix_child d) (filter (\<lambda>name. name \<noteq> ''.'' \<and> name \<noteq> ''..'') names))"
  by (induction names arbitrary: acc) (simp_all add: unix_child_fold Let_def)

lemma unix_list_flat:
  "unix_Directory_list fuel h d False s = Some (map (unix_child d) (unix_entries h d s))"
  by (simp add: unix_entries_def unix_list_loop_flat split: option.split)

lemma unix_list_loop_0:
  assumes "\<forall>name \<in> set names. name \<noteq> ''.'' \<and> name \<noteq> ''..'' \<longrightarrow>
             \<not> unix_isDirectory h (unix_child d name) s"
  shows "unix_list_loop 0 h d True s names acc =
     Some (acc @ map (unix_child d) (filter (\<lambda>name. name \<noteq> ''.'' \<and> name \<noteq> ''..'') names))"
  using assms by (induction names arbitrary: acc) (simp_all add: unix_child_fold Let_def)

lemma unix_list_loop_Suc:
  assumes "\<forall>name \<in> set names. name \<noteq> ''.'' \<and> name \<noteq> ''..'' \<longrightarrow>
             unix_isDirectory h (unix_child d name) s \<longrightarrow>
             unix_Directory_list n h (unix_child d name) True s = Some (sub (unix_child d name))"
  shows "unix_list_loop (Suc n) h d True s names acc =
     Some (acc @ concat (map (\<lambda>name. unix_child d name #
                   (if unix_isDirectory h (unix_child d name) s
                    then sub (unix_child d name) else []))
               (filter (\<lambda>name. name \<noteq> ''.'' \<and> name \<noteq> ''..'') names)))"
  using assms
proof (induction names arbitrary: acc)
  case Nil
  then show ?case by simp
next
  case (Cons name rest)
  show ?case
  proof (cases "name = ''.'' \<or> name = ''..''")
    case True
    then show ?thesis using Cons by auto
  next
    case False
    note ns = this
    show ?thesis
    proof (cases "unix_isDirectory h (unix_child d name) s")
      case True
      with ns Cons.prems
      have sub: "unix_Directory_list n h (unix_child d name) True s = Some (sub (unix_child d name))"
        by simp
      have "unix_list_loop (Suc n) h d True s (name # rest) acc =
              unix_list_loop (Suc n) h d True s rest
                ((acc @ [unix_child d name]) @ sub (unix_child d name))"
        using ns True sub
        by (simp add: Let_def unix_child_fold del: unix_Directory_list.simps)
      also have "\<dots> = Some (((acc @ [unix_child d name]) @ sub (unix_child d name)) @
           concat (map (\<lambda>name. unix_child d name #
                   (if unix_isDirectory h (unix_child d name) s
                    then sub (unix_child d name) else []))
               (filter (\<lambda>name. name \<noteq> ''.'' \<and> name \<noteq> ''..'') rest)))"
        using Cons.prems by (intro Cons.IH) simp
      finally show ?thesis using ns True by simp
    next
      case False
      have "unix_list_loop (Suc n) h d True s (name # rest) acc =
              unix_list_loop (Suc n) h d True s rest (acc @ [unix_child d name])"
        using ns False
        by (simp add: Let_def unix_child_fold del: unix_Directory_list.simps)
      also have "\<dots> = Some ((acc @ [unix_child d name]) @
           concat (map (\<lambda>name. unix_child d name #
                   (if unix_isDirectory h (unix_child d name) s
                    then sub (unix_child d name) else []))
               (filter (\<lambda>name. name \<noteq> ''.'' \<and> name \<noteq> ''..'') rest)))"
        using Cons.prems by (intro Cons.IH) simp
      finally show ?thesis using ns False by simp
    qed
  qed
qed

lemma unix_list_preorder:
  "unix_depth_le n h d s \<Longrightarrow> unix_Directory_list n h d True s = Some (unix_preorder n h d s)"
proof (induction n arbitrary: d)
  case 0
  show ?case
  proof (cases "opendir h (toString d) s")
    case None
    then show ?thesis by (simp add: unix_entries_def)
  next
    case (Some names)
    with 0 have "\<forall>name \<in> set names. name \<noteq> ''.'' \<and> name \<noteq> ''..'' \<longrightarrow>
             \<not> unix_isDirectory h (unix_child d name) s"
      by (simp add: unix_entries_def)
    from unix_list_loop_0 [OF this] Some show ?thesis
      by (simp add: unix_entries_def)
  qed
next
  case (Suc n)
  show ?case
  proof (cases "opendir h (toString d) s")
    case None
    then show ?thesis by (simp add: unix_entries_def)
  next
    case (Some names)
    with Suc have "\<forall>name \<in> set names. name \<noteq> ''.'' \<and> name \<noteq> ''..'' \<longrightarrow>
             unix_isDirectory h (unix_child d name) s \<longrightarrow>
             unix_Directory_list n h (unix_child d name) True s
               = Some (unix_preorder n h (unix_child d name) s)"
      by (simp add: unix_entries_def)
    from unix_list_loop_Suc [OF this] Some show ?thesis
      by (simp add: unix_entries_def)
  qed
qed

text \<open>Every entry of the listing was built from a kept name of the directory it lies in.\<close>

lemma unix_preorder_origin:
  "e \<in> set (unix_preorder n h d s) \<Longrightarrow>
     \<exists>q \<in> set (d # unix_preorder n h d s). \<exists>name \<in> set (unix_entries h q s). e = unix_child q name"
proof (induction n arbitrary: d e)
  case 0
  then show ?case by auto
next
  case (Suc n)
  from Suc.prems obtain name where name: "name \<in> set (unix_entries h d s)"
    and e: "e = unix_child d name \<or>
            (unix_isDirectory h (unix_child d name) s \<and> e \<in> set (unix_preorder n h (unix_child d name) s))"
    by (auto split: if_splits)
  from e show ?case
  proof
    assume "e = unix_child d name"
    with name show ?thesis by auto
  next
    assume sub: "unix_isDirectory h (unix_child d name) s \<and>
                 e \<in> set (unix_preorder n h (unix_child d name) s)"
    then obtain q nm where q: "q \<in> set (unix_child d name # unix_preorder n h (unix_child d name) s)"
      and nm: "nm \<in> set (unix_entries h q s)" "e = unix_child q nm"
      using Suc.IH by blast
    from q sub name have "q \<in> set (unix_preorder (Suc n) h d s)"
      by (auto intro!: bexI [of _ name])
    with nm show ?thesis by auto
  qed
qed

lemma unix_filename_child:
  assumes "plain_name name"
  shows "unix_filename (unix_child d name) = name"
proof -
  define q where "q = replace backslash (CHR ''/'') (m_path d)"
  from assms have pn: "name \<noteq> []" "CHR ''/'' \<notin> set name" "backslash \<notin> set name"
    by (simp_all add: plain_name_def)
  have m: "replace backslash (CHR ''/'') (toString d @ ''/'' @ name) = q @ CHR ''/'' # name"
    using pn(3) replace_id [of backslash name "CHR ''/''"]
    by (simp add: q_def replace_def toString_def)
  have "last (q @ CHR ''/'' # name) \<noteq> CHR ''/''"
    using pn(1,2) by (metis last_appendR last_in_set list.distinct(1) last_ConsR)
  then have p: "m_path (unix_child d name) = q @ CHR ''/'' # name"
    unfolding unix_child_def unix_Path_def Let_def m by simp
  have "find_last_of (q @ CHR ''/'' # name) ''/'' = Some (length q)"
    using pn(2) by (intro find_last_of_split) simp_all
  then show ?thesis
    by (simp add: unix_filename_def p)
qed

lemma unix_preorder_no_sentinel:
  assumes "\<forall>q \<in> set (d # unix_preorder n h d s). \<forall>name \<in> set (unix_entries h q s). plain_name name"
    and "e \<in> set (unix_preorder n h d s)"
  shows "unix_filename e \<noteq> ''.'' \<and> unix_filename e \<noteq> ''..''"
proof -
  from unix_preorder_origin [OF assms(2)] obtain q name
    where q: "q \<in> set (d # unix_preorder n h d s)"
      and name: "name \<in> set (unix_entries h q s)" and e: "e = unix_child q name"
    by blast
  from q name assms(1) have "plain_name name" by blast
  then have "unix_filename e = name"
    unfolding e by (rule unix_filename_child)
  moreover from name have "name \<noteq> ''.'' \<and> name \<noteq> ''..''"
    by (auto simp: unix_entries_def split: option.splits)
  ultimately show ?thesis by simp
qed

lemma win_list_loop_flat:
  "win_list_loop fuel h d False s findData acc =
     Some (acc @ map (\<lambda>e. win_child d (fst e))
                   (filter (\<lambda>e. fst e \<noteq> ''.'' \<and> fst e \<noteq> ''..'') findData))"
  by (induction findData arbitrary: acc) (auto simp: win_child_fold Let_def)

lemma win_list_flat:
  "win_Directory_list fuel h d False s = Some (map (\<lambda>e. win_child d (fst e)) (win_entries h d s))"
  by (simp add: win_entries_def win_list_loop_flat split: option.split)

lemma win_list_loop_0:
  assumes "\<forall>e \<in> set findData. fst e \<noteq> ''.'' \<and> fst e \<noteq> ''..'' \<longrightarrow>
             \<not> snd e AND FILE_ATTRIBUTE_DIRECTORY \<noteq> 0"
  shows "win_list_loop 0 h d True s findData acc =
     Some (acc @ map (\<lambda>e. win_child d (fst e))
                   (filter (\<lambda>e. fst e \<noteq> ''.'' \<and> fst e \<noteq> ''..'') findData))"
  using assms by (induction findData arbitrary: acc) (auto simp: win_child_fold Let_def)

lemma win_list_loop_Suc:
  assumes "\<forall>e \<in> set findData. fst e \<noteq> ''.'' \<and> fst e \<noteq> ''..'' \<longrightarrow>
             snd e AND FILE_ATTRIBUTE_DIRECTORY \<noteq> 0 \<longrightarrow>
             win_Directory_list n h (win_child d (fst e)) True s = Some (sub (win_child d (fst e)))"
  shows "win_list_loop (Suc n) h d True s findData acc =
     Some (acc @ concat (map (\<lambda>e. win_child d (fst e) #
                   (if snd e AND FILE_ATTRIBUTE_DIRECTORY \<noteq> 0
                    then sub (win_child d (fst e)) else []))
               (filter (\<lambda>e. fst e \<noteq> ''.'' \<and> fst e \<noteq> ''..'') findData)))"
  using assms
proof (induction findData arbitrary: acc)
  case Nil
  then show ?case by simp
next
  case (Cons e rest)
  obtain name attrs where e: "e = (name, attrs)" by (cases e)
  show ?case
  proof (cases "name = ''.'' \<or> name = ''..''")
    case True
    then show ?thesis using Cons e by auto
  next
    case False
    note ns = this
    show ?thesis
    proof (cases "attrs AND FILE_ATTRIBUTE_DIRECTORY \<noteq> 0")
      case True
      with ns Cons.prems e
      have sub: "win_Directory_list n h (win_child d name) True s = Some (sub (win_child d name))"
        by (simp del: win_Directory_list.simps)
      have "win_list_loop (Suc n) h d True s (e # rest) acc =
              win_list_loop (Suc n) h d True s rest
                ((acc @ [win_child d name]) @ sub (win_child d name))"
        using ns True sub e
        by (simp add: Let_def win_child_fold del: win_Directory_list.simps)
      also have "\<dots> = Some (((acc @ [win_child d name]) @ sub (win_child d name)) @
           concat (map (\<lambda>e. win_child d (fst e) #
                   (if snd e AND FILE_ATTRIBUTE_DIRECTORY \<noteq> 0
                    then sub (win_child d (fst e)) else []))
               (filter (\<lambda>e. fst e \<noteq> ''.'' \<and> fst e \<noteq> ''..'') rest)))"
        using Cons.prems by (intro Cons.IH) simp
      finally show ?thesis using ns True e by simp
    next
      case False
      have "win_list_loop (Suc n) h d True s (e # rest) acc =
              win_list_loop (Suc n) h d True s rest (acc @ [win_child d name])"
        using ns False e
        by (simp add: Let_def win_child_fold del: win_Directory_list.simps)
      also have "\<dots> = Some ((acc @ [win_child d name]) @
           concat (map (\<lambda>e. win_child d (fst e) #
                   (if snd e AND FILE_ATTRIBUTE_DIRECTORY \<noteq> 0
                    then sub (win_child d (fst e)) else []))
               (filter (\<lambda>e. fst e \<noteq> ''.'' \<and> fst e \<noteq> ''..'') rest)))"
        using Cons.prems by (intro Cons.IH) simp
      finally show ?thesis using ns False e by simp
    qed
  qed
qed

lemma win_list_preorder:
  "win_depth_le n h d s \<Longrightarrow> win_Directory_list n h d True s = Some (win_preorder n h d s)"
proof (induction n arbitrary: d)
  case 0
  show ?case
  proof (cases "FindFirstFileA h (toString d @ [backslash, CHR ''*'']) s")
    case None
    then show ?thesis by (simp add: win_entries_def)
  next
    case (Some findData)
    with 0 have "\<forall>e \<in> set findData. fst e \<noteq> ''.'' \<and> fst e \<noteq> ''..'' \<longrightarrow>
             \<not> snd e AND FILE_ATTRIBUTE_DIRECTORY \<noteq> 0"
      by (auto simp: win_entries_def)
    from win_list_loop_0 [OF this, where h = h and d = d and s = s and acc = "[]"] Some
    show ?thesis
      by (simp add: win_entries_def)
  qed
next
  case (Suc n)
  show ?case
  proof (cases "FindFirstFileA h (toString d @ [backslash, CHR ''*'']) s")
    case None
    then show ?thesis by (simp add: win_entries_def)
  next
    case (Some findData)
    with Suc have "\<forall>e \<in> set findData. fst e \<noteq> ''.'' \<and> fst e \<noteq> ''..'' \<longrightarrow>
             snd e AND FILE_ATTRIBUTE_DIRECTORY \<noteq> 0 \<longrightarrow>
             win_Directory_list n h (win_child d (fst e)) True s
               = Some (win_preorder n h (win_child d (fst e)) s)"
      by (auto simp: win_entries_def simp del: win_Directory_list.simps)
    from win_list_loop_Suc [OF this] Some show ?thesis
      by (simp add: win_entries_def)
  qed
qed

lemma win_preorder_origin:
  "e \<in> set (win_preorder n h d s) \<Longrightarrow>
     \<exists>q \<in> set (d # win_preorder n h d s). \<exists>f \<in> set (win_entries h q s). e = win_child q (fst f)"
proof (induction n arbitrary: d e)
  case 0
  then show ?case by auto
next
  case (Suc n)
  from Suc.prems obtain f where f: "f \<in> set (win_entries h d s)"
    and e: "e = win_child d (fst f) \<or>
            (snd f AND FILE_ATTRIBUTE_DIRECTORY \<noteq> 0 \<and>
             e \<in> set (win_preorder n h (win_child d (fst f)) s))"
    by (auto split: if_splits)
  from e show ?case
  proof
    assume "e = win_child d (fst f)"
    with f show ?thesis by auto
  next
    assume sub: "snd f AND FILE_ATTRIBUTE_DIRECTORY \<noteq> 0 \<and>
                 e \<in> set (win_preorder n h (win_child d (fst f)) s)"
    then obtain q g where q: "q \<in> set (win_child d (fst f) # win_preorder n h (win_child d (fst f)) s)"
      and g: "g \<in> set (win_entries h q s)" "e = win_child q (fst g)"
      using Suc.IH by blast
    from q sub f have "q \<in> set (win_preorder (Suc n) h d s)"
      by (auto intro!: bexI [of _ f])
    with g show ?thesis by auto
  qed
qed

lemma win_filename_child:
  assumes "plain_name name"
  shows "win_filename (win_child d name) = name"
proof -
  define q where "q = replace (CHR ''/'') backslash (m_path d)"
  from assms have pn: "CHR ''/'' \<notin> set name" "backslash \<notin> set name"
    by (simp_all add: plain_name_def)
  have p: "m_path (win_child d name) = q @ backslash # name"
    using pn(1) replace_id [of "CHR ''/''" name backslash]
    by (simp add: q_def replace_def toString_def win_Path_def win_child_def)
  have "find_last_of (q @ backslash # name) [backslash, CHR ''/''] = Some (length q)"
    using pn by (intro find_last_of_split) simp_all
  then show ?thesis
    by (simp add: win_filename_def p)
qed

lemma win_preorder_no_sentinel:
  assumes "\<forall>q \<in> set (d # win_preorder n h d s). \<forall>f \<in> set (win_entries h q s). plain_name (fst f)"
    and "e \<in> set (win_preorder n h d s)"
  shows "win_filename e \<noteq> ''.'' \<and> win_filename e \<noteq> ''..''"
proof -
  from win_preorder_origin [OF assms(2)] obtain q f
    where q: "q \<in> set (d # win_preorder n h d s)"
      and f: "f \<in> set (win_entries h q s)" and e: "e = win_child q (fst f)"
    by blast
  from q f assms(1) have "plain_name (fst f)" by blast
  then have "win_filename e = fst f"
    unfolding e by (rule win_filename_child)
  moreover from f have "fst f \<noteq> ''.'' \<and> fst f \<noteq> ''..''"
    by (auto simp: win_entries_def split: option.splits)
  ultimately show ?thesis by simp
qed

text \<open>
  C6: the listing without recursion is the sequence of the children in the order of the
  enumeration, the two sentinels left out. For a directory whose sub-directories are nested
  at most \<open>n\<close> deep, \<open>list(true)\<close> returns (with that much fuel) the pre-order sequence:
  every child in the order of the enumeration, a directory among them followed at once by
  what \<open>list(true)\<close> returns for it. Every entry is the path built from a name of the
  enumeration of its directory other than the two sentinels, and when the host hands out
  plain names, no entry has the file name \<open>.\<close> or \<open>..\<close>.
\<close>

theorem Directory_list_preorder:
  "unix_Directory_list fuel h d False s = Some (map (unix_child d) (unix_entries h d s)) \<and>
   (unix_depth_le n h d s \<longrightarrow>
      unix_Directory_list n h d True s = Some (unix_preorder n h d s)) \<and>
   (unix_depth_le (Suc n) h d s \<longrightarrow>
      unix_Directory_list (Suc n) h d True s =
        Some (concat (map (\<lambda>name. unix_child d name #
                        (if unix_isDirectory h (unix_child d name) s
                         then the (unix_Directory_list n h (unix_child d name) True s) else []))
                      (unix_entries h d s)))) \<and>
   (\<forall>e \<in> set (unix_preorder n h d s).
      \<exists>q \<in> set (d # unix_preorder n h d s).
        \<exists>name \<in> set (unix_entries h q s). e = unix_child q name) \<and>
   ((\<forall>q \<in> set (d # unix_preorder n h d s). \<forall>name \<in> set (unix_entries h q s). plain_name name) \<longrightarrow>
      (\<forall>e \<in> set (unix_preorder n h d s). unix_filename e \<noteq> ''.'' \<and> unix_filename e \<noteq> ''..'')) \<and>
   win_Directory_list fuel w d False t = Some (map (\<lambda>e. win_child d (fst e)) (win_entries w d t)) \<and>
   (win_depth_le n w d t \<longrightarrow>
      win_Directory_list n w d True t = Some (win_preorder n w d t)) \<and>
   (win_depth_le (Suc n) w d t \<longrightarrow>
      win_Directory_list (Suc n) w d True t =
        Some (concat (map (\<lambda>e. win_child d (fst e) #
                        (if snd e AND FILE_ATTRIBUTE_DIRECTORY \<noteq> 0
                         then the (win_Directory_list n w (win_child d (fst e)) True t) else []))
                      (win_entries w d t)))) \<and>
   (\<forall>e \<in> set (win_preorder n w d t).
      \<exists>q \<in> set (d # win_preorder n w d t).
        \<exists>f \<in> set (win_entries w q t). e = win_child q (fst f)) \<and>
   ((\<forall>q \<in> set (d # win_preorder n w d t). \<forall>f \<in> set (win_entries w q t). plain_name (fst f)) \<longrightarrow>
      (\<forall>e \<in> set (win_preorder n w d t). win_filename e \<noteq> ''.'' \<and> win_filename e \<noteq> ''..''))"
proof (intro conjI impI)
  show "unix_Directory_list fuel h d False s = Some (map (unix_child d) (unix_entries h d s))"
    by (rule unix_list_flat)
  show "unix_Directory_list n h d True s = Some (unix_preorder n h d s)"
    if "unix_depth_le n h d s" using that by (rule unix_list_preorder)
  show "unix_Directory_list (Suc n) h d True s =
        Some (concat (map (\<lambda>name. unix_child d name #
                        (if unix_isDirectory h (unix_child d name) s
                         then the (unix_Directory_list n h (unix_child d name) True s) else []))
                      (unix_entries h d s)))"
    if dl: "unix_depth_le (Suc n) h d s"
  proof -
    have "map (\<lambda>name. unix_child d name #
                 (if unix_isDirectory h (unix_child d name) s
                  then the (unix_Directory_list n h (unix_child d name) True s) else []))
            (unix_entries h d s)
        = map (\<lambda>name. unix_child d name #
                 (if unix_isDirectory h (unix_child d name) s
                  then unix_preorder n h (unix_child d name) s else []))
            (unix_entries h d s)"
      using dl by (intro map_cong refl) (simp add: unix_list_preorder del: unix_Directory_list.simps)
    then show ?thesis
      using unix_list_preorder [OF dl] by (simp only: unix_preorder.simps)
  qed
  show "\<forall>e \<in> set (unix_preorder n h d s).
      \<exists>q \<in> set (d # unix_preorder n h d s).
        \<exists>name \<in> set (unix_entries h q s). e = unix_child q name"
    by (intro ballI unix_preorder_origin)
  show "\<forall>e \<in> set (unix_preorder n h d s). unix_filename e \<noteq> ''.'' \<and> unix_filename e \<noteq> ''..''"
    if "\<forall>q \<in> set (d # unix_preorder n h d s). \<forall>name \<in> set (unix_entries h q s). plain_name name"
    using unix_preorder_no_sentinel [OF that] by blast
  show "win_Directory_list fuel w d False t
          = Some (map (\<lambda>e. win_child d (fst e)) (win_entries w d t))"
    by (rule win_list_flat)
  show "win_Directory_list n w d True t = Some (win_preorder n w d t)"
    if "win_depth_le n w d t" using that by (rule win_list_preorder)
  show "win_Directory_list (Suc n) w d True t =
        Some (concat (map (\<lambda>e. win_child d (fst e) #
                        (if snd e AND FILE_ATTRIBUTE_DIRECTORY \<noteq> 0
                         then the (win_Directory_list n w (win_child d (fst e)) True t) else []))
                      (win_entries w d t)))"
    if dl: "win_depth_le (Suc n) w d t"
  proof -
    have "map (\<lambda>e. win_child d (fst e) #
                 (if snd e AND FILE_ATTRIBUTE_DIRECTORY \<noteq> 0
                  then the (win_Directory_list n w (win_child d (fst e)) True t) else []))
            (win_entries w d t)
        = map (\<lambda>e. win_child d (fst e) #
                 (if snd e AND FILE_ATTRIBUTE_DIRECTORY \<noteq> 0
                  then win_preorder n w (win_child d (fst e)) t else []))
            (win_entries w d t)"
      using dl by (intro map_cong refl) (auto simp: win_list_preorder simp del: win_Directory_list.simps)
    then show ?thesis
      using win_list_preorder [OF dl] by (simp only: win_preorder.simps)
  qed
  show "\<forall>e \<in> set (win_preorder n w d t).
      \<exists>q \<in> set (d # win_preorder n w d t).
        \<exists>f \<in> set (win_entries w q t). e = win_child q (fst f)"
    by (intro ballI win_preorder_origin)
  show "\<forall>e \<in> set (win_preorder n w d t). win_filename e \<noteq> ''.'' \<and> win_filename e \<noteq> ''..''"
    if "\<forall>q \<in> set (d # win_preorder n w d t). \<forall>f \<in> set (win_entries w q t). plain_name (fst f)"
    using win_preorder_no_sentinel [OF that] by blast
qed

text \<open>C6 on the two trees.\<close>

theorem Directory_list_preorder_witness:
  "unix_depth_le (Suc 0) (mem_posix False) (unix_Path ''d'') unix_tree \<and>
   unix_Directory_list (Suc 0) (mem_posix False) (unix_Path ''d'') True unix_tree
     = Some [\<lparr>m_path = ''d/a''\<rparr>, \<lparr>m_path = ''d/b''\<rparr>, \<lparr>m_path = ''d/b/x''\<rparr>, \<lparr>m_path = ''d/c''\<rparr>] \<and>
   unix_filename \<lparr>m_path = ''d/b/x''\<rparr> \<noteq> ''..'' \<and>
   win_depth_le (Suc 0) mem_win32 (win_Path ''d'') win_tree \<and>
   win_Directory_list (Suc 0) mem_win32 (win_Path ''d'') True win_tree
     = Some [\<lparr>m_path = ''d'' @ [backslash] @ ''a''\<rparr>, \<lparr>m_path = ''d'' @ [backslash] @ ''b''\<rparr>,
        \<lparr>m_path = ''d'' @ [backslash] @ ''b'' @ [backslash] @ ''x''\<rparr>,
        \<lparr>m_path = ''d'' @ [backslash] @ ''c''\<rparr>] \<and>
   win_filename \<lparr>m_path = ''d'' @ [backslash] @ ''b'' @ [backslash] @ ''x''\<rparr> \<noteq> ''..''"
proof -
  have du: "unix_depth_le (Suc 0) (mem_posix False) (unix_Path ''d'') unix_tree"
    by code_simp
  have dw: "win_depth_le (Suc 0) mem_win32 (win_Path ''d'') win_tree"
    by code_simp
  have lu: "unix_preorder (Suc 0) (mem_posix False) (unix_Path ''d'') unix_tree
     = [\<lparr>m_path = ''d/a''\<rparr>, \<lparr>m_path = ''d/b''\<rparr>, \<lparr>m_path = ''d/b/x''\<rparr>, \<lparr>m_path = ''d/c''\<rparr>]"
    by code_simp
  have lw: "win_preorder (Suc 0) mem_win32 (win_Path ''d'') win_tree
     = [\<lparr>m_path = ''d'' @ [backslash] @ ''a''\<rparr>, \<lparr>m_path = ''d'' @ [backslash] @ ''b''\<rparr>,
        \<lparr>m_path = ''d'' @ [backslash] @ ''b'' @ [backslash] @ ''x''\<rparr>,
        \<lparr>m_path = ''d'' @ [backslash] @ ''c''\<rparr>]"
    by code_simp
  have pu: "\<forall>q \<in> set (unix_Path ''d'' #
                unix_preorder (Suc 0) (mem_posix False) (unix_Path ''d'') unix_tree).
              \<forall>name \<in> set (unix_entries (mem_posix False) q unix_tree). plain_name name"
    by code_simp
  have pw: "\<forall>q \<in> set (win_Path ''d'' # win_preorder (Suc 0) mem_win32 (win_Path ''d'') win_tree).
              \<forall>f \<in> set (win_entries mem_win32 q win_tree). plain_name (fst f)"
    by code_simp
  note inst = Directory_list_preorder [where fuel = 0 and n = "Suc 0" and h = "mem_posix False"
      and s = unix_tree and w = mem_win32 and t = win_tree]
  from inst [of "unix_Path ''d''"] du pu
  have u: "unix_Directory_list (Suc 0) (mem_posix False) (unix_Path ''d'') True unix_tree
     = Some [\<lparr>m_path = ''d/a''\<rparr>, \<lparr>m_path = ''d/b''\<rparr>, \<lparr>m_path = ''d/b/x''\<rparr>, \<lparr>m_path = ''d/c''\<rparr>]"
    "unix_filename \<lparr>m_path = ''d/b/x''\<rparr> \<noteq> ''..''"
    unfolding lu by simp_all
  from inst [of "win_Path ''d''"] dw pw
  have w: "win_Directory_list (Suc 0) mem_win32 (win_Path ''d'') True win_tree
     = Some [\<lparr>m_path = ''d'' @ [backslash] @ ''a''\<rparr>, \<lparr>m_path = ''d'' @ [backslash] @ ''b''\<rparr>,
        \<lparr>m_path = ''d'' @ [backslash] @ ''b'' @ [backslash] @ ''x''\<rparr>,
        \<lparr>m_path = ''d'' @ [backslash] @ ''c''\<rparr>]"
    "win_filename \<lparr>m_path = ''d'' @ [backslash] @ ''b'' @ [backslash] @ ''x''\<rparr> \<noteq> ''..''"
    unfolding lw by simp_all
  from du dw u w show ?thesis by blast
qed

section \<open>Recursive removal\<close>

lemma unix_remove_loop_Cons:
  "unix_remove_loop fuel h (c # rest) s =
     (case unix_remove_child fuel h c s of
        None \<Rightarrow> None
      | Some (Inl e, s1) \<Rightarrow> Some (Inl e, s1)
      | Some (Inr u, s1) \<Rightarrow> unix_remove_loop fuel h rest s1)"
  by (simp add: unix_remove_child_def split: nat.split prod.split sum.split
      del: unix_Directory_remove.simps)

lemma unix_remove_each_loop:
  "unix_remove_each fuel h pre s = Some s1 \<Longrightarrow>
     unix_remove_loop fuel h (pre @ post) s = unix_remove_loop fuel h post s1"
proof (induction pre arbitrary: s)
  case Nil
  then show ?case by simp
next
  case (Cons c pre)
  from Cons.prems obtain u s' where c: "unix_remove_child fuel h c s = Some (Inr u, s')"
    and rest: "unix_remove_each fuel h pre s' = Some s1"
    by (auto split: option.splits prod.splits sum.splits)
  have "unix_remove_loop fuel h ((c # pre) @ post) s = unix_remove_loop fuel h (pre @ post) s'"
    using c by (simp add: unix_remove_loop_Cons del: unix_remove_loop.simps)
  with Cons.IH [OF rest] show ?case by simp
qed

lemma unix_remove_each_failure:
  assumes "unix_remove_each fuel h pre s = Some s1"
    and "unix_remove_child fuel h c s1 = Some (Inl e, s2)"
  shows "unix_remove_loop fuel h (pre @ c # post) s = Some (Inl e, s2)"
proof -
  have "unix_remove_loop fuel h (pre @ c # post) s = unix_remove_loop fuel h (c # post) s1"
    using assms(1) by (rule unix_remove_each_loop)
  also have "\<dots> = Some (Inl e, s2)"
    using assms(2) by (simp add: unix_remove_loop_Cons del: unix_remove_loop.simps)
  finally show ?thesis .
qed

lemma unix_remove_each_success:
  assumes "unix_remove_each fuel h contents s = Some s1"
  shows "unix_remove_loop fuel h contents s = Some (Inr (), s1)"
  using unix_remove_each_loop [OF assms, of "[]"] by simp

lemma unix_remove_recursive:
  "unix_Directory_remove fuel h d True s =
     (case unix_remove_loop fuel h (map (unix_child d) (unix_entries h d s)) s of
        None \<Rightarrow> None
      | Some (Inl e, s1) \<Rightarrow> Some (Inl e, s1)
      | Some (Inr u, s1) \<Rightarrow>
          (case rmdir h (toString d) s1 of
             None \<Rightarrow> Some (Inl (FileSystemException ''Could not remove directory''), s1)
           | Some s2 \<Rightarrow> Some (Inr (), s2)))"
  by (simp add: unix_list_flat del: unix_Directory_list.simps)

lemma win_remove_loop_Cons:
  "win_remove_loop fuel h (c # rest) s =
     (case win_remove_child fuel h c s of
        None \<Rightarrow> None
      | Some (Inl e, s1) \<Rightarrow> Some (Inl e, s1)
      | Some (Inr u, s1) \<Rightarrow> win_remove_loop fuel h rest s1)"
  by (simp add: win_remove_child_def split: nat.split prod.split sum.split
      del: win_Directory_remove.simps)

lemma win_remove_each_loop:
  "win_remove_each fuel h pre s = Some s1 \<Longrightarrow>
     win_remove_loop fuel h (pre @ post) s = win_remove_loop fuel h post s1"
proof (induction pre arbitrary: s)
  case Nil
  then show ?case by simp
next
  case (Cons c pre)
  from Cons.prems obtain u s' where c: "win_remove_child fuel h c s = Some (Inr u, s')"
    and rest: "win_remove_each fuel h pre s' = Some s1"
    by (auto split: option.splits prod.splits sum.splits)
  have "win_remove_loop fuel h ((c # pre) @ post) s = win_remove_loop fuel h (pre @ post) s'"
    using c by (simp add: win_remove_loop_Cons del: win_remove_loop.simps)
  with Cons.IH [OF rest] show ?case by simp
qed

lemma win_remove_each_failure:
  assumes "win_remove_each fuel h pre s = Some s1"
    and "win_remove_child fuel h c s1 = Some (Inl e, s2)"
  shows "win_remove_loop fuel h (pre @ c # post) s = Some (Inl e, s2)"
proof -
  have "win_remove_loop fuel h (pre @ c # post) s = win_remove_loop fuel h (c # post) s1"
    using assms(1) by (rule win_remove_each_loop)
  also have "\<dots> = Some (Inl e, s2)"
    using assms(2) by (simp add: win_remove_loop_Cons del: win_remove_loop.simps)
  finally show ?thesis .
qed

lemma win_remove_each_success:
  assumes "win_remove_each fuel h contents s = Some s1"
  shows "win_remove_loop fuel h contents s = Some (Inr (), s1)"
  using win_remove_each_loop [OF assms, of "[]"] by simp

lemma win_remove_recursive:
  "win_Directory_remove fuel h d True s =
     (case win_remove_loop fuel h (map (\<lambda>e. win_child d (fst e)) (win_entries h d s)) s of
        None \<Rightarrow> None
      | Some (Inl e, s1) \<Rightarrow> Some (Inl e, s1)
      | Some (Inr u, s1) \<Rightarrow>
          (case RemoveDirectoryA h (toString d) s1 of
             None \<Rightarrow> Some (Inl (FileSystemException ''Could not remove directory''), s1)
           | Some s2 \<Rightarrow> Some (Inr (), s2)))"
  by (simp add: win_list_flat del: win_Directory_list.simps)

text \<open>
  C5: let \<open>contents\<close> be what \<open>list(false)\<close> returns for the directory. If the children
  before \<open>c\<close> have been removed in their order, each with success (a directory by
  \<open>remove(true)\<close>, anything else by \<open>File::remove\<close>), and the removal of \<open>c\<close> throws,
  then \<open>remove(true)\<close> throws that exception in the state the failure left: the children
  after \<open>c\<close> and the directory itself are not touched, and what was deleted stays
  deleted. If all children have been removed, the directory itself is removed last, from
  the state that their removal left.
\<close>

theorem Directory_remove_postorder:
  assumes "unix_Directory_list k h d False s = Some contents"
    and "win_Directory_list k w d' False t = Some findings"
  shows
    "(\<forall>pre c post s1 e s2.
        contents = pre @ c # post \<longrightarrow> unix_remove_each fuel h pre s = Some s1 \<longrightarrow>
        unix_remove_child fuel h c s1 = Some (Inl e, s2) \<longrightarrow>
        unix_Directory_remove fuel h d True s = Some (Inl e, s2)) \<and>
     (\<forall>s1. unix_remove_each fuel h contents s = Some s1 \<longrightarrow>
        unix_Directory_remove fuel h d True s =
          Some (case rmdir h (toString d) s1 of
                  None \<Rightarrow> (Inl (FileSystemException ''Could not remove directory''), s1)
                | Some s2 \<Rightarrow> (Inr (), s2))) \<and>
     (\<forall>pre c post t1 e t2.
        findings = pre @ c # post \<longrightarrow> win_remove_each fuel w pre t = Some t1 \<longrightarrow>
        win_remove_child fuel w c t1 = Some (Inl e, t2) \<longrightarrow>
        win_Directory_remove fuel w d' True t = Some (Inl e, t2)) \<and>
     (\<forall>t1. win_remove_each fuel w findings t = Some t1 \<longrightarrow>
        win_Directory_remove fuel w d' True t =
          Some (case RemoveDirectoryA w (toString d') t1 of
                  None \<Rightarrow> (Inl (FileSystemException ''Could not remove directory''), t1)
                | Some t2 \<Rightarrow> (Inr (), t2)))"
proof -
  from assms(1) have u: "map (unix_child d) (unix_entries h d s) = contents"
    by (simp add: unix_list_flat del: unix_Directory_list.simps)
  from assms(2) have v: "map (\<lambda>e. win_child d' (fst e)) (win_entries w d' t) = findings"
    by (simp add: win_list_flat del: win_Directory_list.simps)
  show ?thesis
  proof (intro conjI allI impI)
    fix pre c post s1 e s2
    assume "contents = pre @ c # post" "unix_remove_each fuel h pre s = Some s1"
      "unix_remove_child fuel h c s1 = Some (Inl e, s2)"
    then have "unix_remove_loop fuel h contents s = Some (Inl e, s2)"
      by (simp add: unix_remove_each_failure del: unix_remove_loop.simps)
    then show "unix_Directory_remove fuel h d True s = Some (Inl e, s2)"
      unfolding unix_remove_recursive u by simp
  next
    fix s1
    assume "unix_remove_each fuel h contents s = Some s1"
    then have "unix_remove_loop fuel h contents s = Some (Inr (), s1)"
      by (rule unix_remove_each_success)
    then show "unix_Directory_remove fuel h d True s =
          Some (case rmdir h (toString d) s1 of
                  None \<Rightarrow> (Inl (FileSystemException ''Could not remove directory''), s1)
                | Some s2 \<Rightarrow> (Inr (), s2))"
      unfolding unix_remove_recursive u by (simp split: option.split)
  next
    fix pre c post t1 e t2
    assume "findings = pre @ c # post" "win_remove_each fuel w pre t = Some t1"
      "win_remove_child fuel w c t1 = Some (Inl e, t2)"
    then have "win_remove_loop fuel w findings t = Some (Inl e, t2)"
      by (simp add: win_remove_each_failure del: win_remove_loop.simps)
    then show "win_Directory_remove fuel w d' True t = Some (Inl e, t2)"
      unfolding win_remove_recursive v by simp
  next
    fix t1
    assume "win_remove_each fuel w findings t = Some t1"
    then have "win_remove_loop fuel w findings t = Some (Inr (), t1)"
      by (rule win_remove_each_success)
    then show "win_Directory_remove fuel w d' True t =
          Some (case RemoveDirectoryA w (toString d') t1 of
                  None \<Rightarrow> (Inl (FileSystemException ''Could not remove directory''), t1)
                | Some t2 \<Rightarrow> (Inr (), t2))"
      unfolding win_remove_recursive v by (simp split: option.split)
  qed
qed

text \<open>C5 on the two trees: the file \<open>x\<close> of the sub-directory \<open>b\<close> cannot be deleted.\<close>

theorem Directory_remove_postorder_witness:
  "unix_Directory_list 0 (mem_posix False) (unix_Path ''d'') False unix_tree
     = Some [\<lparr>m_path = ''d/a''\<rparr>, \<lparr>m_path = ''d/b''\<rparr>, \<lparr>m_path = ''d/c''\<rparr>] \<and>
   unix_remove_each (Suc 0) (mem_posix False)
       [\<lparr>m_path = ''d/a''\<rparr>, \<lparr>m_path = ''d/b''\<rparr>, \<lparr>m_path = ''d/c''\<rparr>] unix_tree
     = Some [(''d'', Folder), (''f'', RegularFile [7, 0, 7])] \<and>
   unix_Directory_remove (Suc 0) (mem_posix False) (unix_Path ''d'') True unix_tree
     = Some (Inr (), [(''f'', RegularFile [7, 0, 7])]) \<and>
   unix_remove_each (Suc 0) (mem_posix_locked ''d/b/x'') [\<lparr>m_path = ''d/a''\<rparr>] unix_tree
     = Some (fs_remove ''d/a'' unix_tree) \<and>
   unix_remove_child (Suc 0) (mem_posix_locked ''d/b/x'') \<lparr>m_path = ''d/b''\<rparr>
       (fs_remove ''d/a'' unix_tree)
     = Some (Inl (FileSystemException ''Could not delete file''), fs_remove ''d/a'' unix_tree) \<and>
   unix_Directory_remove (Suc 0) (mem_posix_locked ''d/b/x'') (unix_Path ''d'') True unix_tree
     = Some (Inl (FileSystemException ''Could not delete file''), fs_remove ''d/a'' unix_tree) \<and>
   win_Directory_remove (Suc 0) mem_win32 (win_Path ''d'') True win_tree
     = Some (Inr (), [(''f'', RegularFile [7, 0, 7]), (''g'', RegularFile [])]) \<and>
   win_Directory_remove (Suc 0) (mem_win32_locked (''d'' @ [backslash] @ ''b'' @ [backslash] @ ''x''))
       (win_Path ''d'') True win_tree
     = Some (Inl (FileSystemException ''Could not delete file''),
             fs_remove (''d'' @ [backslash] @ ''a'') win_tree)"
proof -
  let ?hl = "mem_posix_locked ''d/b/x''"
  let ?wl = "mem_win32_locked (''d'' @ [backslash] @ ''b'' @ [backslash] @ ''x'')"
  let ?a = "\<lparr>m_path = ''d/a''\<rparr>" and ?b = "\<lparr>m_path = ''d/b''\<rparr>" and ?c = "\<lparr>m_path = ''d/c''\<rparr>"
  let ?wa = "\<lparr>m_path = ''d'' @ [backslash] @ ''a''\<rparr>"
    and ?wb = "\<lparr>m_path = ''d'' @ [backslash] @ ''b''\<rparr>"
    and ?wc = "\<lparr>m_path = ''d'' @ [backslash] @ ''c''\<rparr>"
  have l1: "unix_Directory_list 0 (mem_posix False) (unix_Path ''d'') False unix_tree
              = Some [?a, ?b, ?c]"
    by code_simp
  have l2: "unix_Directory_list 0 ?hl (unix_Path ''d'') False unix_tree = Some ([?a] @ ?b # [?c])"
    by code_simp
  have l3: "win_Directory_list 0 mem_win32 (win_Path ''d'') False win_tree = Some [?wa, ?wb, ?wc]"
    by code_simp
  have l4: "win_Directory_list 0 ?wl (win_Path ''d'') False win_tree = Some ([?wa] @ ?wb # [?wc])"
    by code_simp
  have e1: "unix_remove_each (Suc 0) (mem_posix False) [?a, ?b, ?c] unix_tree
              = Some [(''d'', Folder), (''f'', RegularFile [7, 0, 7])]"
    by code_simp
  have e2: "unix_remove_each (Suc 0) ?hl [?a] unix_tree = Some (fs_remove ''d/a'' unix_tree)"
    by code_simp
  have e3: "unix_remove_child (Suc 0) ?hl ?b (fs_remove ''d/a'' unix_tree)
              = Some (Inl (FileSystemException ''Could not delete file''),
                      fs_remove ''d/a'' unix_tree)"
    by code_simp
  have e4: "win_remove_each (Suc 0) mem_win32 [?wa, ?wb, ?wc] win_tree
              = Some [(''d'', Folder), (''f'', RegularFile [7, 0, 7]), (''g'', RegularFile [])]"
    by code_simp
  have e5: "win_remove_each (Suc 0) ?wl [?wa] win_tree
              = Some (fs_remove (''d'' @ [backslash] @ ''a'') win_tree)"
    by code_simp
  have e6: "win_remove_child (Suc 0) ?wl ?wb (fs_remove (''d'' @ [backslash] @ ''a'') win_tree)
              = Some (Inl (FileSystemException ''Could not delete file''),
                      fs_remove (''d'' @ [backslash] @ ''a'') win_tree)"
    by code_simp
  have r1: "rmdir (mem_posix False) (toString (unix_Path ''d''))
              [(''d'', Folder), (''f'', RegularFile [7, 0, 7])]
            = Some [(''f'', RegularFile [7, 0, 7])]"
    by code_simp
  have r2: "RemoveDirectoryA mem_win32 (toString (win_Path ''d''))
              [(''d'', Folder), (''f'', RegularFile [7, 0, 7]), (''g'', RegularFile [])]
            = Some [(''f'', RegularFile [7, 0, 7]), (''g'', RegularFile [])]"
    by code_simp
  from Directory_remove_postorder [OF l1 l3, of "Suc 0"] e1 e4 r1 r2
  have ok: "unix_Directory_remove (Suc 0) (mem_posix False) (unix_Path ''d'') True unix_tree
              = Some (Inr (), [(''f'', RegularFile [7, 0, 7])])"
    "win_Directory_remove (Suc 0) mem_win32 (win_Path ''d'') True win_tree
       = Some (Inr (), [(''f'', RegularFile [7, 0, 7]), (''g'', RegularFile [])])"
    by simp_all
  from Directory_remove_postorder [OF l2 l4, of "Suc 0"] e2 e3 e5 e6
  have ko: "unix_Directory_remove (Suc 0) ?hl (unix_Path ''d'') True unix_tree
              = Some (Inl (FileSystemException ''Could not delete file''),
                      fs_remove ''d/a'' unix_tree)"
    "win_Directory_remove (Suc 0) ?wl (win_Path ''d'') True win_tree
       = Some (Inl (FileSystemException ''Could not delete file''),
               fs_remove (''d'' @ [backslash] @ ''a'') win_tree)"
    by blast+
  from l1 e1 e2 e3 ok ko show ?thesis by blast
qed

end
